theory Spec2Isabelle
  imports Complex_Main "HOL-Library.Word" "HOL-Library.Sublist"
begin

section \<open>The layout engine of the Solana memory viewer\<close>

text \<open>
  A shallow embedding of \<^verbatim>\<open>src/components/memory-viewer.tsx\<close>: the region
  catalogue, the expansion of the per-account template, the offset and row
  computations, the byte value and colour of a cell, the little-endian display
  and the three parameter handlers.

  Conventions of the embedding.
  \<^item> A JavaScript \<^verbatim>\<open>number\<close> that holds an integer is an \<^typ>\<open>int\<close>. Sums of
    sizes agree with the doubles as long as they stay within \<open>2 ^ 53\<close> in
    magnitude, where doubles are exact on integers. Where a number comes from
    text or from a literal, the rounding to a double is written out
    (\<open>toNumber\<close>, \<open>toDouble\<close>), and the type \<open>number\<close> adds \<^verbatim>\<open>NaN\<close> and the
    infinities.
  \<^item> A string is a \<^typ>\<open>string\<close> of code units below 256; every string the
    component builds or compares is ASCII.
  \<^item> An array of numbers is an \<^typ>\<open>int option list\<close>: \<open>None\<close> is a hole
    (\<^verbatim>\<open>undefined\<close>), which a write past the end leaves behind.
  \<^item> A hook (\<^verbatim>\<open>useMemo\<close>, \<^verbatim>\<open>useCallback\<close>) is a function of the component
    state it closes over; a handler returns the updated state.
\<close>

subsection \<open>Strings and numbers of the host language\<close>

text \<open>\<^verbatim>\<open>s.includes(sub)\<close>: \<open>sub\<close> occurs in \<open>s\<close> as a contiguous run.\<close>

fun includes_str :: "string \<Rightarrow> string \<Rightarrow> bool" where
  "includes_str [] sub = (sub = [])"
| "includes_str (c # cs) sub = (prefix sub (c # cs) \<or> includes_str cs sub)"

text \<open>\<^verbatim>\<open>s.split(c)\<close> for a separator of one character: never an empty array.\<close>

fun split_str :: "char \<Rightarrow> string \<Rightarrow> string list" where
  "split_str sep [] = [[]]"
| "split_str sep (c # cs) =
     (if c = sep then [] # split_str sep cs
      else (case split_str sep cs of
              [] \<Rightarrow> [[c]]
            | p # ps \<Rightarrow> (c # p) # ps))"

text \<open>An array read \<^verbatim>\<open>xs[i]\<close>: \<^verbatim>\<open>undefined\<close> outside the array.\<close>

definition at_index :: "'a list \<Rightarrow> nat \<Rightarrow> 'a option" where
  "at_index xs i = (if i < length xs then Some (xs ! i) else None)"

text \<open>
  \<^verbatim>\<open>Number.prototype.toString(radix)\<close> on a non-negative integer, and the digit
  it writes for a value below the radix (lower case, as JavaScript does).
\<close>

definition digitChar :: "nat \<Rightarrow> char" where
  "digitChar d = (if d < 10 then char_of (48 + d) else char_of (87 + d))"

function toStringRadix :: "nat \<Rightarrow> nat \<Rightarrow> string" where
  "toStringRadix R n =
     (if R < 2 \<or> n < R then [digitChar n]
      else toStringRadix R (n div R) @ [digitChar (n mod R)])"
  by pat_completeness auto
termination
  by (relation "measure (\<lambda>(R, n). n)") auto

declare toStringRadix.simps [simp del]

definition padStart :: "nat \<Rightarrow> char \<Rightarrow> string \<Rightarrow> string" where
  "padStart n c s = replicate (n - length s) c @ s"

text \<open>\<^verbatim>\<open>x.toString(16).padStart(2, '0')\<close>.\<close>

definition hex2 :: "nat \<Rightarrow> string" where
  "hex2 b = padStart 2 (CHR ''0'') (toStringRadix 16 b)"

fun join_str :: "string \<Rightarrow> string list \<Rightarrow> string" where
  "join_str sep [] = []"
| "join_str sep [s] = s"
| "join_str sep (s # t # ss) = s @ sep @ join_str sep (t # ss)"

text \<open>
  The double nearest to an integer (53 significant bits, ties to the even
  significand), as if the exponent had no upper bound: what a numeric literal
  or \<^verbatim>\<open>Number(v)\<close> holds below the overflow to infinity, which \<open>toDouble\<close> adds.
  Integers up to \<open>2 ^ 53\<close> are kept.
\<close>

function bitLength :: "int \<Rightarrow> nat" where
  "bitLength n = (if n \<le> 0 then 0 else Suc (bitLength (n div 2)))"
  by pat_completeness auto
termination
  by (relation "measure nat") auto

declare bitLength.simps [simp del]

definition toNumber :: "int \<Rightarrow> int" where
  "toNumber v =
     (let m = \<bar>v\<bar>; e = bitLength m - 53; q = m div 2 ^ e; r = m mod 2 ^ e;
          q' = (if 2 * r > 2 ^ e \<or> (2 * r = 2 ^ e \<and> odd q) then q + 1 else q)
      in sgn v * (q' * 2 ^ e))"

text \<open>
  The values a \<^verbatim>\<open>number\<close> takes in the component: \<^verbatim>\<open>NaN\<close>, a double that is an
  integer, or an infinity. \<open>toDouble\<close> is the number an integer becomes: the
  nearest double, and an infinity when that rounding reaches \<open>2 ^ 1024\<close>.
  \<open>numberPlus\<close> is \<^verbatim>\<open>x + c\<close> for an integer \<open>c\<close>.
\<close>

datatype number = NaN | Finite int | PlusInfinity | MinusInfinity

definition toDouble :: "int \<Rightarrow> number" where
  "toDouble v =
     (let r = toNumber v
      in if 2 ^ 1024 \<le> r then PlusInfinity
         else if r \<le> - (2 ^ 1024) then MinusInfinity
         else Finite r)"

definition numberPlus :: "number \<Rightarrow> int \<Rightarrow> number" where
  "numberPlus x c =
     (case x of
        NaN \<Rightarrow> NaN
      | Finite v \<Rightarrow> toDouble (v + c)
      | PlusInfinity \<Rightarrow> PlusInfinity
      | MinusInfinity \<Rightarrow> MinusInfinity)"

text \<open>
  The text a template literal inserts for a number. For an integer below
  \<open>2 ^ 53\<close> in magnitude these are its decimal digits, with a minus sign; for
  a larger double JavaScript writes the shortest digits that read back as the
  same double, and exponent notation from \<open>10 ^ 21\<close>, where this definition
  writes all the digits. No region of a layout has a number that large.
\<close>

definition numberToString :: "number \<Rightarrow> string" where
  "numberToString v =
     (case v of
        NaN \<Rightarrow> ''NaN''
      | Finite i \<Rightarrow> (if i < 0 then CHR ''-'' # toStringRadix 10 (nat (- i))
                    else toStringRadix 10 (nat i))
      | PlusInfinity \<Rightarrow> ''Infinity''
      | MinusInfinity \<Rightarrow> ''-Infinity'')"

text \<open>
  \<^verbatim>\<open>parseInt(string, radix)\<close> as ECMAScript defines it. \<open>parseIntMath\<close> is the
  integer it reads: leading white space is dropped (tab to carriage return,
  space, no-break space; the white space above code unit 255 is outside the
  strings modelled), then an optional sign, then (radix absent or 16) an
  optional \<^verbatim>\<open>0x\<close>, then the longest run of digits of the radix is taken,
  whatever follows it; no digit at all gives \<^verbatim>\<open>NaN\<close>. The argument
  \<^verbatim>\<open>undefined\<close> reads as the text "undefined". \<open>parseInt\<close> returns that integer
  as a number: rounded to the nearest double, an infinity beyond the doubles.
  (The standard lets an engine read the decimal digits after the twentieth
  as zeros; the engines round the whole run correctly, as is done here.)
\<close>

definition isWhiteSpace :: "char \<Rightarrow> bool" where
  "isWhiteSpace c =
     (let u = (of_char c :: nat) in (9 \<le> u \<and> u \<le> 13) \<or> u = 32 \<or> u = 160)"

definition digitValue :: "char \<Rightarrow> nat option" where
  "digitValue c =
     (let u = (of_char c :: nat) in
      if 48 \<le> u \<and> u \<le> 57 then Some (u - 48)
      else if 97 \<le> u \<and> u \<le> 122 then Some (u - 87)
      else if 65 \<le> u \<and> u \<le> 90 then Some (u - 55)
      else None)"

definition isRadixDigit :: "nat \<Rightarrow> char \<Rightarrow> bool" where
  "isRadixDigit R c = (case digitValue c of None \<Rightarrow> False | Some d \<Rightarrow> d < R)"

definition mathInt :: "nat \<Rightarrow> string \<Rightarrow> int" where
  "mathInt R Z =
     foldl (\<lambda>a c. a * int R + (case digitValue c of None \<Rightarrow> 0 | Some d \<Rightarrow> int d)) 0 Z"

definition parseIntMath :: "string option \<Rightarrow> nat option \<Rightarrow> int option" where
  "parseIntMath string radix =
     (let inputString = (case string of None \<Rightarrow> ''undefined'' | Some s \<Rightarrow> s);
          S0 = dropWhile isWhiteSpace inputString;
          sign = (if S0 \<noteq> [] \<and> hd S0 = CHR ''-'' then - 1 else (1 :: int));
          S1 = (if S0 \<noteq> [] \<and> (hd S0 = CHR ''+'' \<or> hd S0 = CHR ''-'') then tl S0 else S0);
          R0 = (case radix of None \<Rightarrow> 0 | Some r \<Rightarrow> r)
      in if R0 \<noteq> 0 \<and> (R0 < 2 \<or> 36 < R0) then None
         else
           let stripPrefix = (R0 = 0 \<or> R0 = 16);
               hasPrefix = (stripPrefix \<and> (take 2 S1 = ''0x'' \<or> take 2 S1 = ''0X''));
               S2 = (if hasPrefix then drop 2 S1 else S1);
               R = (if hasPrefix then 16 else if R0 = 0 then 10 else R0);
               Z = takeWhile (isRadixDigit R) S2
           in if Z = [] then None else Some (sign * mathInt R Z))"

definition parseInt :: "string option \<Rightarrow> nat option \<Rightarrow> number" where
  "parseInt string radix =
     (case parseIntMath string radix of None \<Rightarrow> NaN | Some m \<Rightarrow> toDouble m)"

text \<open>
  \<^verbatim>\<open>new BigUint64Array([BigInt(x)])\<close> keeps \<open>x\<close> modulo \<open>2 ^ 64\<close>; the
  \<^verbatim>\<open>Uint8Array\<close> over its buffer, and \<^verbatim>\<open>DataView.setBigUint64(0, x, true)\<close>, list
  its eight bytes from the least significant one (the byte order of every
  platform the component runs on).
\<close>

definition BigUint64 :: "int \<Rightarrow> 64 word" where
  "BigUint64 x = word_of_int x"

definition littleEndianBytes :: "64 word \<Rightarrow> 8 word list" where
  "littleEndianBytes w = map (\<lambda>k. ucast (drop_bit (8 * k) w)) [0..<8]"

subsection \<open>The region catalogue\<close>

record MemorySection =
  start :: int
  end_addr :: int
  section_name :: string

record SubRegion =
  name :: string
  size_bytes :: int
  color :: string

text \<open>
  A \<^verbatim>\<open>Region\<close> has the three fields of a \<^verbatim>\<open>SubRegion\<close> and three more;
  \<^verbatim>\<open>isDynamic\<close> is optional in the source.
\<close>

record Region = SubRegion +
  subRegions :: "SubRegion list"
  isDynamic :: "bool option"
  isPadding :: bool

definition MEMORY_SECTIONS :: "MemorySection list" where
  "MEMORY_SECTIONS =
     [\<lparr>start = 0x100000000, end_addr = 0x1FFFFFFFF, section_name = ''Program code''\<rparr>,
      \<lparr>start = 0x200000000, end_addr = 0x2FFFFFFFF, section_name = ''Stack data''\<rparr>,
      \<lparr>start = 0x300000000, end_addr = 0x3FFFFFFFF, section_name = ''Heap data''\<rparr>,
      \<lparr>start = 0x400000000, end_addr = 0x4FFFFFFFF,
       section_name = ''Program input parameters''\<rparr>]"

definition PROGRAM_REGIONS :: "Region list" where
  "PROGRAM_REGIONS =
     [\<lparr>name = ''Number of accounts'', size_bytes = 8, color = ''bg-blue-400'',
       subRegions = [], isDynamic = None, isPadding = False\<rparr>,
      \<lparr>name = ''Instruction data size'', size_bytes = 8, color = ''bg-cyan-400'',
       subRegions = [], isDynamic = None, isPadding = False\<rparr>,
      \<lparr>name = ''Instruction data'', size_bytes = 32, color = ''bg-lime-400'',
       subRegions = [], isDynamic = Some True, isPadding = False\<rparr>,
      \<lparr>name = ''Program ID'', size_bytes = 32, color = ''bg-amber-400'',
       subRegions = [], isDynamic = None, isPadding = False\<rparr>]"

definition ACCOUNT_REGIONS :: "Region list" where
  "ACCOUNT_REGIONS =
     [\<lparr>name = ''Account Flags'', size_bytes = 4, color = ''bg-green-400'',
       subRegions =
         [\<lparr>name = ''Is Duplicate'', size_bytes = 1, color = ''bg-green-300''\<rparr>,
          \<lparr>name = ''Is Signer'', size_bytes = 1, color = ''bg-green-400''\<rparr>,
          \<lparr>name = ''Is Writable'', size_bytes = 1, color = ''bg-green-500''\<rparr>,
          \<lparr>name = ''Is Executable'', size_bytes = 1, color = ''bg-green-600''\<rparr>],
       isDynamic = None, isPadding = False\<rparr>,
      \<lparr>name = ''Padding 1'', size_bytes = 4, color = ''bg-gray-400'',
       subRegions = [], isDynamic = None, isPadding = True\<rparr>,
      \<lparr>name = ''Public keys'', size_bytes = 64, color = ''bg-purple-400'',
       subRegions =
         [\<lparr>name = ''Account Pub Key'', size_bytes = 32, color = ''bg-indigo-400''\<rparr>,
          \<lparr>name = ''Account Owner Pub Key'', size_bytes = 32, color = ''bg-violet-400''\<rparr>],
       isDynamic = None, isPadding = False\<rparr>,
      \<lparr>name = ''Lamports'', size_bytes = 8, color = ''bg-red-400'',
       subRegions = [], isDynamic = None, isPadding = False\<rparr>,
      \<lparr>name = ''Account data size'', size_bytes = 8, color = ''bg-indigo-400'',
       subRegions = [], isDynamic = None, isPadding = False\<rparr>,
      \<lparr>name = ''Account data'', size_bytes = 32, color = ''bg-pink-400'',
       subRegions = [], isDynamic = Some True, isPadding = False\<rparr>,
      \<lparr>name = ''Realloc padding'', size_bytes = 10240, color = ''bg-gray-500'',
       subRegions = [], isDynamic = None, isPadding = True\<rparr>,
      \<lparr>name = ''Rent epoch'', size_bytes = 8, color = ''bg-teal-400'',
       subRegions = [], isDynamic = None, isPadding = False\<rparr>]"

definition BYTES_PER_ROW :: int where
  "BYTES_PER_ROW = 16"

definition MIN_ROWS :: int where
  "MIN_ROWS = 16"

subsection \<open>The component state\<close>

text \<open>
  The \<^verbatim>\<open>useState\<close> cells. \<open>numberOfAccounts\<close> is a \<^typ>\<open>nat\<close>: it starts at 1
  and its only setter stores a value clamped into \<open>[0, 64]\<close>.
\<close>

record ViewerState =
  selectedSection :: MemorySection
  focusedRegion :: "string option"
  accountDataSizes :: "int option list"
  instructionDataSize :: int
  numberOfAccounts :: nat
  selectedView :: string

definition initialState :: ViewerState where
  "initialState =
     \<lparr>selectedSection = MEMORY_SECTIONS ! 3, focusedRegion = None,
      accountDataSizes = [Some 32], instructionDataSize = 32,
      numberOfAccounts = 1, selectedView = ''Program''\<rparr>"

subsection \<open>Expansion of the layout\<close>

text \<open>\<^verbatim>\<open>x || 32\<close> on an array read: \<^verbatim>\<open>undefined\<close> and 0 are falsy.\<close>

definition orDefault32 :: "int option \<Rightarrow> int" where
  "orDefault32 x = (case x of None \<Rightarrow> 32 | Some v \<Rightarrow> (if v = 0 then 32 else v))"

text \<open>\<^verbatim>\<open>accountDataSizes[index]\<close>: a hole reads as \<^verbatim>\<open>undefined\<close> too.\<close>

definition sizeAt :: "int option list \<Rightarrow> nat \<Rightarrow> int option" where
  "sizeAt sizes index = (case at_index sizes index of None \<Rightarrow> None | Some x \<Rightarrow> x)"

text \<open>
  The callback of the \<^verbatim>\<open>flatMap\<close>: the template instantiated for the account
  at \<open>index\<close> (from 0), its names prefixed with the 1-based account number.
\<close>

definition instantiateAccount :: "int option list \<Rightarrow> nat \<Rightarrow> Region list" where
  "instantiateAccount sizes index =
     map (\<lambda>region. region
            \<lparr>name := ''Account '' @ numberToString (Finite (int index + 1)) @ '': '' @ name region,
             size_bytes := (if name region = ''Account data''
                            then orDefault32 (sizeAt sizes index)
                            else size_bytes region)\<rparr>)
         ACCOUNT_REGIONS"

definition accountRegions :: "ViewerState \<Rightarrow> Region list" where
  "accountRegions st =
     concat (map (instantiateAccount (accountDataSizes st)) [0..<numberOfAccounts st])"

definition programInputRegions :: "ViewerState \<Rightarrow> Region list" where
  "programInputRegions st =
     take 1 PROGRAM_REGIONS @ accountRegions st @
     map (\<lambda>region. if name region = ''Instruction data''
                    then region\<lparr>size_bytes := instructionDataSize st\<rparr> else region)
         (drop 1 PROGRAM_REGIONS)"

definition totalNamedRegionSize :: "ViewerState \<Rightarrow> int" where
  "totalNamedRegionSize st =
     foldl (\<lambda>sum region. sum + size_bytes region) 0 (programInputRegions st)"

subsection \<open>Rows\<close>

definition maxRows :: "ViewerState \<Rightarrow> int" where
  "maxRows st = \<lceil>real_of_int (totalNamedRegionSize st) / real_of_int BYTES_PER_ROW\<rceil> + 1"

definition totalRows :: "ViewerState \<Rightarrow> int" where
  "totalRows st =
     (if section_name (selectedSection st) = ''Program input parameters''
      then max MIN_ROWS (maxRows st)
      else max MIN_ROWS
             \<lceil>real_of_int (end_addr (selectedSection st) - start (selectedSection st) + 1)
                / real_of_int BYTES_PER_ROW\<rceil>)"

subsection \<open>Offsets, values and colours\<close>

text \<open>The loop of \<^verbatim>\<open>getRegionOffset\<close>, with its running offset; \<open>- 1\<close> when no name matches.\<close>

fun regionOffsetFrom :: "int \<Rightarrow> Region list \<Rightarrow> string \<Rightarrow> int" where
  "regionOffsetFrom offset [] regionName = - 1"
| "regionOffsetFrom offset (region # rest) regionName =
     (if name region = regionName then offset
      else regionOffsetFrom (offset + size_bytes region) rest regionName)"

definition getRegionOffset :: "ViewerState \<Rightarrow> string \<Rightarrow> int" where
  "getRegionOffset st regionName = regionOffsetFrom 0 (programInputRegions st) regionName"

text \<open>The byte a focused size field shows at \<open>index\<close>, when \<open>index\<close> is within its eight bytes.\<close>

definition encodedByteAt :: "int \<Rightarrow> int \<Rightarrow> nat \<Rightarrow> string option" where
  "encodedByteAt x offset index =
     (if offset \<le> int index \<and> int index < offset + 8
      then Some (hex2 (unat (littleEndianBytes (BigUint64 x) ! nat (int index - offset))))
      else None)"

definition getMemoryValue :: "ViewerState \<Rightarrow> nat \<Rightarrow> string" where
  "getMemoryValue st index =
     (let fallback = hex2 (index mod 256);
          orFallback = (\<lambda>r. case r of None \<Rightarrow> fallback | Some s \<Rightarrow> s)
      in if section_name (selectedSection st) = ''Program input parameters'' then
           (case focusedRegion st of
              None \<Rightarrow> fallback
            | Some focused \<Rightarrow>
                if includes_str focused ''Account data size'' then
                  (let accountIndex =
                         numberPlus
                           (parseInt (at_index (split_str (CHR '' '')
                              (hd (split_str (CHR '':'') focused))) 1) None) (- 1);
                       offset = getRegionOffset st
                         (''Account '' @ numberToString (numberPlus accountIndex 1)
                            @ '': Account data size'');
                       stored = (case accountIndex of
                                   Finite i \<Rightarrow> if i < 0 then None
                                              else sizeAt (accountDataSizes st) (nat i)
                                 | _ \<Rightarrow> None)
                   in orFallback (encodedByteAt (orDefault32 stored) offset index))
                else if focused = ''Instruction data size'' then
                  orFallback (encodedByteAt (instructionDataSize st)
                    (getRegionOffset st ''Instruction data size'') index)
                else if focused = ''Number of accounts'' then
                  orFallback (encodedByteAt (int (numberOfAccounts st))
                    (getRegionOffset st ''Number of accounts'') index)
                else fallback)
         else fallback)"

text \<open>The inner loop of \<^verbatim>\<open>getRegionColor\<close> over the sub-regions of the focused region.\<close>

fun subRegionColor :: "nat \<Rightarrow> int \<Rightarrow> SubRegion list \<Rightarrow> string option" where
  "subRegionColor byteOffset subRegionOffset [] = None"
| "subRegionColor byteOffset subRegionOffset (subRegion # rest) =
     (if subRegionOffset \<le> int byteOffset
         \<and> int byteOffset < subRegionOffset + size_bytes subRegion
      then Some (color subRegion)
      else subRegionColor byteOffset (subRegionOffset + size_bytes subRegion) rest)"

text \<open>
  What \<^verbatim>\<open>getRegionColor\<close> returns once it has found the region that holds the
  byte: the body of its outer \<^verbatim>\<open>if\<close>. A focused name is truthy when it is
  neither \<^verbatim>\<open>null\<close> nor empty; an array of sub-regions is always truthy.
\<close>

definition colorInRegion :: "string option \<Rightarrow> nat \<Rightarrow> int \<Rightarrow> Region \<Rightarrow> string" where
  "colorInRegion focus byteOffset currentOffset region =
     (case focus of
        None \<Rightarrow> (if isPadding region then color region @ '' crosshatch'' else color region)
      | Some focused \<Rightarrow>
          if focused = [] then
            (if isPadding region then color region @ '' crosshatch'' else color region)
          else if includes_str focused ''Account data size''
                  \<and> includes_str (name region) ''Account data''
          then color region @ '' opacity-50''
          else if focused = ''Instruction data size'' \<and> name region = ''Instruction data''
          then color region @ '' opacity-50''
          else
            (case (if focused = name region
                   then subRegionColor byteOffset currentOffset (subRegions region)
                   else None) of
               Some c \<Rightarrow> c
             | None \<Rightarrow> (if focused = name region then color region else ''bg-gray-700'')))"

fun regionColorFrom :: "string option \<Rightarrow> nat \<Rightarrow> int \<Rightarrow> Region list \<Rightarrow> string" where
  "regionColorFrom focus byteOffset currentOffset [] = ''bg-gray-800''"
| "regionColorFrom focus byteOffset currentOffset (region # rest) =
     (if currentOffset \<le> int byteOffset \<and> int byteOffset < currentOffset + size_bytes region
      then colorInRegion focus byteOffset currentOffset region
      else regionColorFrom focus byteOffset (currentOffset + size_bytes region) rest)"

definition getRegionColor :: "ViewerState \<Rightarrow> nat \<Rightarrow> string" where
  "getRegionColor st byteOffset =
     (if section_name (selectedSection st) \<noteq> ''Program input parameters'' then ''bg-gray-800''
      else regionColorFrom (focusedRegion st) byteOffset 0 (programInputRegions st))"

fun regionForOffsetFrom :: "nat \<Rightarrow> int \<Rightarrow> Region list \<Rightarrow> Region option" where
  "regionForOffsetFrom byteOffset currentOffset [] = None"
| "regionForOffsetFrom byteOffset currentOffset (region # rest) =
     (if currentOffset \<le> int byteOffset \<and> int byteOffset < currentOffset + size_bytes region
      then Some region
      else regionForOffsetFrom byteOffset (currentOffset + size_bytes region) rest)"

definition getRegionForOffset :: "ViewerState \<Rightarrow> nat \<Rightarrow> Region option" where
  "getRegionForOffset st byteOffset = regionForOffsetFrom byteOffset 0 (programInputRegions st)"

subsection \<open>Handlers and the little-endian display\<close>

text \<open>
  \<^verbatim>\<open>newSizes[accountIndex] = v\<close>: a write past the end lengthens the array and
  leaves holes between. The index is a \<^typ>\<open>nat\<close>: the only call passes the
  account number of a displayed region name, less one.
\<close>

definition arraySet :: "int option list \<Rightarrow> nat \<Rightarrow> int \<Rightarrow> int option list" where
  "arraySet xs i v =
     (if i < length xs then xs[i := Some v]
      else xs @ replicate (i - length xs) None @ [Some v])"

text \<open>
  The two size handlers store the parsed number, or 0 for \<^verbatim>\<open>NaN\<close>, with no
  clamp. The sizes of a state are integers; when the parsed number is an
  infinity the code stores it all the same, into the field the handler
  writes, and no state of this development describes the component from then
  on: those outcomes are \<open>StoresPlusInfinity\<close> and \<open>StoresMinusInfinity\<close>.
\<close>

datatype sizeUpdate = Stored ViewerState | StoresPlusInfinity | StoresMinusInfinity

definition handleAccountDataSizeChange :: "string \<Rightarrow> nat \<Rightarrow> ViewerState \<Rightarrow> sizeUpdate" where
  "handleAccountDataSizeChange targetValue accountIndex st =
     (case parseInt (Some targetValue) (Some 10) of
        NaN \<Rightarrow> Stored (st\<lparr>accountDataSizes := arraySet (accountDataSizes st) accountIndex 0\<rparr>)
      | Finite v \<Rightarrow> Stored (st\<lparr>accountDataSizes := arraySet (accountDataSizes st) accountIndex v\<rparr>)
      | PlusInfinity \<Rightarrow> StoresPlusInfinity
      | MinusInfinity \<Rightarrow> StoresMinusInfinity)"

definition handleInstructionDataSizeChange :: "string \<Rightarrow> ViewerState \<Rightarrow> sizeUpdate" where
  "handleInstructionDataSizeChange targetValue st =
     (case parseInt (Some targetValue) (Some 10) of
        NaN \<Rightarrow> Stored (st\<lparr>instructionDataSize := 0\<rparr>)
      | Finite v \<Rightarrow> Stored (st\<lparr>instructionDataSize := v\<rparr>)
      | PlusInfinity \<Rightarrow> StoresPlusInfinity
      | MinusInfinity \<Rightarrow> StoresMinusInfinity)"

text \<open>
  The \<^verbatim>\<open>while\<close> loop that pushes 32 until the array is long enough, and the
  handler of the count: \<^verbatim>\<open>Math.min(Math.max(value, 0), 64)\<close> is 64 for the
  positive infinity and 0 for the negative one.
\<close>

function pushDefaults :: "int option list \<Rightarrow> nat \<Rightarrow> int option list" where
  "pushDefaults newSizes newNumberOfAccounts =
     (if length newSizes < newNumberOfAccounts
      then pushDefaults (newSizes @ [Some 32]) newNumberOfAccounts
      else newSizes)"
  by pat_completeness auto
termination
  by (relation "measure (\<lambda>(newSizes, n). n - length newSizes)") auto

declare pushDefaults.simps [simp del]

definition handleNumberOfAccountsChange :: "string \<Rightarrow> ViewerState \<Rightarrow> ViewerState" where
  "handleNumberOfAccountsChange targetValue st =
     (let parsed = parseInt (Some targetValue) (Some 10);
          newNumberOfAccounts =
            nat (case parsed of
                   NaN \<Rightarrow> 0
                 | Finite v \<Rightarrow> min (max v 0) 64
                 | PlusInfinity \<Rightarrow> 64
                 | MinusInfinity \<Rightarrow> 0)
      in st\<lparr>numberOfAccounts := newNumberOfAccounts,
             accountDataSizes :=
               take newNumberOfAccounts
                 (pushDefaults (accountDataSizes st) newNumberOfAccounts)\<rparr>)"

definition toLittleEndian :: "int \<Rightarrow> string" where
  "toLittleEndian num =
     join_str '' '' (map (\<lambda>b. hex2 (unat b)) (littleEndianBytes (BigUint64 num)))"

subsection \<open>Vocabulary of the statements\<close>

text \<open>
  The name the expansion gives to the region \<open>base\<close> of account number \<open>k\<close>
  (counted from 1), the names of the template, and the two sums the total
  size is compared with: the template with \<open>d\<close> as its data size, and the
  regions that are not repeated with \<open>d\<close> as the instruction data size.
\<close>

definition unitRegionName :: "nat \<Rightarrow> string \<Rightarrow> string" where
  "unitRegionName k base = ''Account '' @ toStringRadix 10 k @ '': '' @ base"

definition accountBaseNames :: "string list" where
  "accountBaseNames =
     [''Account Flags'', ''Padding 1'', ''Public keys'', ''Lamports'',
      ''Account data size'', ''Account data'', ''Realloc padding'', ''Rent epoch'']"

text \<open>
  The run of decimal digits a handler reads from its text, after the white
  space and an optional sign, and the sign; and the texts that are a decimal
  integer from the first character to the last.
\<close>

definition leadingDigits :: "string \<Rightarrow> string" where
  "leadingDigits s =
     (let S0 = dropWhile isWhiteSpace s;
          S1 = (if S0 \<noteq> [] \<and> (hd S0 = CHR ''+'' \<or> hd S0 = CHR ''-'') then tl S0 else S0)
      in takeWhile (isRadixDigit 10) S1)"

definition leadingSign :: "string \<Rightarrow> int" where
  "leadingSign s =
     (let S0 = dropWhile isWhiteSpace s
      in if S0 \<noteq> [] \<and> hd S0 = CHR ''-'' then - 1 else 1)"

definition isNumericText :: "string \<Rightarrow> bool" where
  "isNumericText s =
     (let t = (if s \<noteq> [] \<and> (hd s = CHR ''+'' \<or> hd s = CHR ''-'') then tl s else s)
      in t \<noteq> [] \<and> list_all (isRadixDigit 10) t)"

text \<open>Byte \<open>j\<close> of the unsigned 64-bit little-endian encoding of \<open>x\<close>.\<close>

definition littleEndianByte :: "int \<Rightarrow> nat \<Rightarrow> nat" where
  "littleEndianByte x j = nat ((x mod 2 ^ 64) div 256 ^ j mod 256)"

definition accountTemplateTotal :: "int \<Rightarrow> int" where
  "accountTemplateTotal d =
     sum_list (map (\<lambda>region. if name region = ''Account data'' then d else size_bytes region)
       ACCOUNT_REGIONS)"

definition fixedRegionsTotal :: "int \<Rightarrow> int" where
  "fixedRegionsTotal d =
     sum_list (map (\<lambda>region. if name region = ''Instruction data'' then d else size_bytes region)
       PROGRAM_REGIONS)"

section \<open>Properties\<close>

subsection \<open>Decimal and hexadecimal text\<close>

lemma toStringRadix_small: "n < R \<Longrightarrow> toStringRadix R n = [digitChar n]"
  by (subst toStringRadix.simps) simp

lemma toStringRadix_step:
  "2 \<le> R \<Longrightarrow> R \<le> n \<Longrightarrow> toStringRadix R n = toStringRadix R (n div R) @ [digitChar (n mod R)]"
  by (subst toStringRadix.simps) simp

lemma isRadixDigit_10: "isRadixDigit 10 c \<longleftrightarrow> 48 \<le> (of_char c :: nat) \<and> (of_char c :: nat) \<le> 57"
  by (auto simp: isRadixDigit_def digitValue_def Let_def)

lemma of_char_digitChar: "d < 10 \<Longrightarrow> (of_char (digitChar d) :: nat) = 48 + d"
  by (simp add: digitChar_def)

lemma digitValue_digitChar: "d < 10 \<Longrightarrow> digitValue (digitChar d) = Some d"
  by (simp add: digitValue_def of_char_digitChar Let_def)

lemma isRadixDigit_digitChar: "d < 10 \<Longrightarrow> isRadixDigit 10 (digitChar d)"
  by (simp add: isRadixDigit_def digitValue_digitChar)

lemma toStringRadix_nonempty: "toStringRadix R n \<noteq> []"
  by (subst toStringRadix.simps) simp

lemma toStringRadix_decimal: "c \<in> set (toStringRadix 10 n) \<Longrightarrow> isRadixDigit 10 c"
proof (induction n arbitrary: c rule: less_induct)
  case (less n)
  show ?case
  proof (cases "n < 10")
    case True
    with less.prems show ?thesis by (simp add: toStringRadix_small isRadixDigit_digitChar)
  next
    case False
    then have "n div 10 < n" by simp
    then have "\<And>c. c \<in> set (toStringRadix 10 (n div 10)) \<Longrightarrow> isRadixDigit 10 c"
      by (rule less.IH)
    with less.prems False show ?thesis
      by (auto simp: toStringRadix_step isRadixDigit_digitChar)
  qed
qed

lemma bitLength_bound: "m < 2 ^ k \<Longrightarrow> bitLength m \<le> k"
proof (induction k arbitrary: m)
  case 0
  then show ?case by (subst bitLength.simps) simp
next
  case (Suc k)
  then have "m div 2 < 2 ^ k" by simp
  then have "bitLength (m div 2) \<le> k" by (rule Suc.IH)
  then show ?case by (subst bitLength.simps) simp
qed

lemma toNumber_safe: "\<bar>v\<bar> < 2 ^ 53 \<Longrightarrow> toNumber v = v"
proof -
  assume "\<bar>v\<bar> < 2 ^ 53"
  then have "bitLength \<bar>v\<bar> - 53 = 0" using bitLength_bound[of "\<bar>v\<bar>" 53] by simp
  then show ?thesis by (simp add: toNumber_def Let_def mult_sgn_abs)
qed

lemma toDouble_small: "\<bar>v\<bar> < 2 ^ 53 \<Longrightarrow> toDouble v = Finite v"
proof -
  assume v: "\<bar>v\<bar> < 2 ^ 53"
  have "(2 :: int) ^ 53 \<le> 2 ^ 1024" by (rule power_increasing) simp_all
  with v have "\<not> 2 ^ 1024 \<le> v" "\<not> v \<le> - (2 ^ 1024)" by linarith+
  then show ?thesis by (simp add: toDouble_def toNumber_safe[OF v])
qed

lemma bitLength_upper: "0 \<le> m \<Longrightarrow> m < 2 ^ bitLength m"
proof (induction m rule: bitLength.induct)
  case (1 n)
  show ?case
  proof (cases "n \<le> 0")
    case True
    with 1 show ?thesis by (subst bitLength.simps) simp
  next
    case False
    then have "n div 2 < 2 ^ bitLength (n div 2)" using 1 by simp
    then have "n < 2 * 2 ^ bitLength (n div 2)" by linarith
    with False show ?thesis by (subst bitLength.simps) simp
  qed
qed

lemma bitLength_lower: "0 < m \<Longrightarrow> 2 ^ bitLength m \<le> 2 * m"
proof (induction m rule: bitLength.induct)
  case (1 n)
  show ?case
  proof (cases "n div 2 \<le> 0")
    case True
    then have b: "bitLength (n div 2) = 0" by (subst bitLength.simps) simp
    from 1(2) show ?thesis by (subst bitLength.simps) (simp add: b)
  next
    case False
    then have "2 ^ bitLength (n div 2) \<le> 2 * (n div 2)" using 1 by simp
    also have "\<dots> \<le> n" by simp
    finally show ?thesis using 1(2) by (subst bitLength.simps) simp
  qed
qed

lemma toNumber_minus: "toNumber (- v) = - toNumber v"
  by (simp add: toNumber_def Let_def sgn_minus)

lemma toNumber_large_pos:
  assumes "2 ^ 53 \<le> v"
  shows "2 ^ 53 \<le> toNumber v"
proof -
  define k where "k = bitLength v"
  define e where "e = k - 53"
  have v0: "0 < v" using assms by (smt (verit) zero_less_power)
  have "v < 2 ^ k" unfolding k_def using v0 by (intro bitLength_upper) simp
  have vk: "v < 2 ^ k" by fact
  have k53: "53 < k"
  proof (rule ccontr)
    assume "\<not> 53 < k"
    then have "k \<le> 53" by simp
    then have "(2 :: int) ^ k \<le> 2 ^ 53" by (rule power_increasing) simp
    with vk assms show False by linarith
  qed
  then have k: "k = Suc (e + 52)" by (simp add: e_def)
  have "(2 :: int) ^ k \<le> 2 * v" unfolding k_def using v0 by (rule bitLength_lower)
  then have low: "(2 :: int) ^ 52 * 2 ^ e \<le> v" by (simp add: k power_add)
  define q where "q = v div 2 ^ e"
  have "(2 :: int) ^ 52 * 2 ^ e div 2 ^ e \<le> v div 2 ^ e" using low by (rule zdiv_mono1) simp
  then have q: "2 ^ 52 \<le> q" by (simp add: q_def)
  define q' where "q' = (if 2 * (v mod 2 ^ e) > 2 ^ e \<or> (2 * (v mod 2 ^ e) = 2 ^ e \<and> odd q) then q + 1 else q)"
  have q': "2 ^ 52 \<le> q'" using q by (simp add: q'_def)
  have e1: "(2 :: int) \<le> 2 ^ e" using k53 by (cases e) (simp_all add: e_def)
  have "(2 :: int) ^ 52 * 2 \<le> q' * 2 ^ e" using q' e1 by (intro mult_mono) simp_all
  moreover have "toNumber v = q' * 2 ^ e"
    using v0 by (simp add: toNumber_def Let_def q'_def q_def e_def k_def)
  ultimately show ?thesis by simp
qed

lemma toNumber_large_neg: "v \<le> - (2 ^ 53) \<Longrightarrow> toNumber v \<le> - (2 ^ 53)"
  using toNumber_large_pos[of "- v"] by (simp add: toNumber_minus)

lemma mathInt_snoc:
  "mathInt R (Z @ [c]) = mathInt R Z * int R + (case digitValue c of None \<Rightarrow> 0 | Some d \<Rightarrow> int d)"
  by (simp add: mathInt_def)

lemma mathInt_toStringRadix: "mathInt 10 (toStringRadix 10 n) = int n"
proof (induction n rule: less_induct)
  case (less n)
  show ?case
  proof (cases "n < 10")
    case True
    then show ?thesis
      by (simp add: toStringRadix_small mathInt_def digitValue_digitChar)
  next
    case False
    then have "n div 10 < n" by simp
    then have "mathInt 10 (toStringRadix 10 (n div 10)) = int (n div 10)" by (rule less.IH)
    moreover have "int (n div 10) * 10 + int (n mod 10) = int n"
      by (simp add: zdiv_int zmod_int)
    ultimately show ?thesis using False
      by (simp add: toStringRadix_step mathInt_snoc digitValue_digitChar)
  qed
qed

lemma toStringRadix_inj: "toStringRadix 10 a = toStringRadix 10 b \<Longrightarrow> a = b"
proof -
  assume "toStringRadix 10 a = toStringRadix 10 b"
  then have "mathInt 10 (toStringRadix 10 a) = mathInt 10 (toStringRadix 10 b)"
    by (rule arg_cong)
  then show "a = b" by (simp only: mathInt_toStringRadix of_nat_eq_iff)
qed

subsection \<open>Searching, splitting and parsing text\<close>

lemma includes_str_sublist: "includes_str s sub \<longleftrightarrow> sublist sub s"
  by (induction s) (auto simp: sublist_Cons_right)

lemma includes_str_iff: "includes_str s sub \<longleftrightarrow> (\<exists>p q. s = p @ sub @ q)"
  by (simp add: includes_str_sublist sublist_def)

lemma includes_str_set: "includes_str s sub \<Longrightarrow> set sub \<subseteq> set s"
  by (auto simp: includes_str_iff)

lemma split_str_nonempty: "split_str sep s \<noteq> []"
  by (induction s) (auto split: list.splits)

lemma split_str_no_sep: "sep \<notin> set p \<Longrightarrow> split_str sep p = [p]"
  by (induction p) auto

lemma split_str_append: "sep \<notin> set p \<Longrightarrow> split_str sep (p @ sep # q) = p # split_str sep q"
  by (induction p) (auto split: list.splits)

lemma not_digit_chars:
  "\<not> isRadixDigit 10 (CHR '' '')" "\<not> isRadixDigit 10 (CHR '':'')"
  "\<not> isRadixDigit 10 (CHR ''-'')" "\<not> isRadixDigit 10 (CHR ''+'')"
  "\<not> isRadixDigit 10 (CHR ''x'')" "\<not> isRadixDigit 10 (CHR ''X'')"
  "\<not> isRadixDigit 10 (CHR ''z'')" "\<not> isRadixDigit 10 (CHR ''A'')"
  by (simp_all add: isRadixDigit_10)

lemma digit_not_white: "isRadixDigit 10 c \<Longrightarrow> \<not> isWhiteSpace c"
  by (auto simp: isRadixDigit_10 isWhiteSpace_def Let_def)

lemma parseIntMath_digits:
  assumes "s \<noteq> []" and "\<forall>c \<in> set s. isRadixDigit 10 c"
  shows "parseIntMath (Some s) None = Some (mathInt 10 s)"
    and "parseIntMath (Some s) (Some 10) = Some (mathInt 10 s)"
proof -
  obtain c cs where s: "s = c # cs" using assms(1) by (cases s) auto
  have c: "isRadixDigit 10 c" using assms(2) s by simp
  have dw: "dropWhile isWhiteSpace s = s"
    using c s by (simp add: digit_not_white)
  have sign: "hd s \<noteq> CHR ''-''" "hd s \<noteq> CHR ''+''"
    using c s not_digit_chars by auto
  have nopre: "take 2 s \<noteq> ''0x''" "take 2 s \<noteq> ''0X''"
  proof -
    { fix y assume "take 2 s = [CHR ''0'', y]"
      then have "y \<in> set (take 2 s)" by simp
      then have "y \<in> set s" by (rule in_set_takeD)
      then have "isRadixDigit 10 y" using assms(2) by simp }
    then show "take 2 s \<noteq> ''0x''" "take 2 s \<noteq> ''0X''"
      using not_digit_chars by auto
  qed
  have tw: "takeWhile (isRadixDigit 10) s = s"
    using assms(2) by simp
  show "parseIntMath (Some s) None = Some (mathInt 10 s)"
    unfolding parseIntMath_def Let_def by (simp add: dw sign nopre tw assms(1))
  show "parseIntMath (Some s) (Some 10) = Some (mathInt 10 s)"
    unfolding parseIntMath_def Let_def by (simp add: dw sign nopre tw assms(1))
qed

lemma parseIntMath_toStringRadix:
  "parseIntMath (Some (toStringRadix 10 n)) None = Some (int n)"
  "parseIntMath (Some (toStringRadix 10 n)) (Some 10) = Some (int n)"
  using parseIntMath_digits[of "toStringRadix 10 n"]
  by (simp_all add: toStringRadix_nonempty toStringRadix_decimal mathInt_toStringRadix)

lemma parseInt_toStringRadix:
  "int n < 2 ^ 53 \<Longrightarrow> parseInt (Some (toStringRadix 10 n)) None = Finite (int n)"
  by (simp add: parseInt_def parseIntMath_toStringRadix toDouble_small)

subsection \<open>The shape of the expanded layout\<close>

lemma numberToString_nat: "numberToString (Finite (int k)) = toStringRadix 10 k"
  by (simp add: numberToString_def)

lemma numberToString_Suc: "numberToString (Finite (int i + 1)) = toStringRadix 10 (Suc i)"
  using numberToString_nat[of "Suc i"] by (simp add: add.commute)

lemma instantiateAccount_names:
  "map name (instantiateAccount sizes i) =
     map (unitRegionName (Suc i))
       [''Account Flags'', ''Padding 1'', ''Public keys'', ''Lamports'',
        ''Account data size'', ''Account data'', ''Realloc padding'', ''Rent epoch'']"
  by (simp add: instantiateAccount_def ACCOUNT_REGIONS_def unitRegionName_def numberToString_Suc)

lemma instantiateAccount_sizes:
  "map size_bytes (instantiateAccount sizes i) =
     [4, 4, 64, 8, 8, orDefault32 (sizeAt sizes i), 10240, 8]"
  by (simp add: instantiateAccount_def ACCOUNT_REGIONS_def)

lemma length_instantiateAccount: "length (instantiateAccount sizes i) = 8"
  by (simp add: instantiateAccount_def ACCOUNT_REGIONS_def)

lemma length_concat_uniform:
  "(\<And>i. length (f i) = m) \<Longrightarrow> length (concat (map f [0..<n])) = m * n"
  by (induction n) simp_all

lemma nth_concat_uniform:
  assumes "\<And>i. length (f i) = m" and "i < n" and "j < m"
  shows "concat (map f [0..<n]) ! (m * i + j) = f i ! j"
  using assms(2)
proof (induction n)
  case 0
  then show ?case by simp
next
  case (Suc n)
  have len: "length (concat (map f [0..<n])) = m * n"
    using assms(1) by (rule length_concat_uniform)
  show ?case
  proof (cases "i < n")
    case True
    then have "m * i + j < m * n"
      using assms(3)
      by (metis add.commute mult_Suc_right add_less_cancel_left less_le_trans mult_le_mono2 Suc_leI)
    with True Suc.IH show ?thesis by (simp add: nth_append len)
  next
    case False
    with Suc.prems have "i = n" by simp
    then show ?thesis by (simp add: nth_append len)
  qed
qed

lemma length_accountRegions: "length (accountRegions st) = 8 * numberOfAccounts st"
  unfolding accountRegions_def
  by (rule length_concat_uniform) (rule length_instantiateAccount)

lemma nth_accountRegions:
  "i < numberOfAccounts st \<Longrightarrow> j < 8 \<Longrightarrow>
   accountRegions st ! (8 * i + j) = instantiateAccount (accountDataSizes st) i ! j"
  unfolding accountRegions_def
  by (rule nth_concat_uniform) (simp_all add: length_instantiateAccount)

lemma length_programInputRegions:
  "length (programInputRegions st) = 4 + 8 * numberOfAccounts st"
  by (simp add: programInputRegions_def length_accountRegions PROGRAM_REGIONS_def)

lemma takeWhile_sep: "sep \<notin> set p \<Longrightarrow> takeWhile (\<lambda>c. c \<noteq> sep) (p @ sep # r) = p"
  by (induction p) auto

lemma split_at_colon:
  assumes "CHR '':'' \<notin> set p" "CHR '':'' \<notin> set p'" "p @ CHR '':'' # r = p' @ CHR '':'' # r'"
  shows "p = p' \<and> r = r'"
proof -
  have "takeWhile (\<lambda>c. c \<noteq> CHR '':'') (p @ CHR '':'' # r) = p"
    using assms(1) by (rule takeWhile_sep)
  moreover have "takeWhile (\<lambda>c. c \<noteq> CHR '':'') (p' @ CHR '':'' # r') = p'"
    using assms(2) by (rule takeWhile_sep)
  ultimately have "p = p'" using assms(3) by simp
  with assms(3) show ?thesis by simp
qed

lemma colon_not_decimal: "CHR '':'' \<notin> set (toStringRadix 10 k)"
  using toStringRadix_decimal not_digit_chars(2) by blast

lemma space_not_decimal: "CHR '' '' \<notin> set (toStringRadix 10 k)"
  using toStringRadix_decimal not_digit_chars(1) by blast

lemma unitRegionName_inj:
  assumes "unitRegionName k b = unitRegionName k' b'"
  shows "k = k' \<and> b = b'"
proof -
  from assms have "toStringRadix 10 k @ CHR '':'' # (CHR '' '' # b)
      = toStringRadix 10 k' @ CHR '':'' # (CHR '' '' # b')"
    by (simp add: unitRegionName_def)
  then have "toStringRadix 10 k = toStringRadix 10 k' \<and> CHR '' '' # b = CHR '' '' # b'"
    by (rule split_at_colon[OF colon_not_decimal colon_not_decimal])
  then show ?thesis by (auto dest: toStringRadix_inj)
qed

lemma names_instantiateAccount:
  "map name (instantiateAccount sizes i) = map (unitRegionName (Suc i)) accountBaseNames"
  by (simp add: instantiateAccount_names accountBaseNames_def)

lemma names_accountRegions:
  "map name (accountRegions st) =
     concat (map (\<lambda>i. map (unitRegionName (Suc i)) accountBaseNames) [0..<numberOfAccounts st])"
  by (simp add: accountRegions_def map_concat comp_def names_instantiateAccount)

lemma names_programInputRegions:
  "map name (programInputRegions st) =
     ''Number of accounts'' # map name (accountRegions st) @
     [''Instruction data size'', ''Instruction data'', ''Program ID'']"
  by (simp add: programInputRegions_def PROGRAM_REGIONS_def)

lemma set_names_accountRegions:
  "set (map name (accountRegions st)) =
     {unitRegionName (Suc i) b | i b. i < numberOfAccounts st \<and> b \<in> set accountBaseNames}"
  unfolding names_accountRegions by fastforce

lemma distinct_unit_names:
  "distinct (concat (map (\<lambda>i. map (unitRegionName (Suc i)) accountBaseNames) [0..<n]))"
proof (induction n)
  case 0
  then show ?case by simp
next
  case (Suc n)
  have base: "distinct accountBaseNames"
    by (simp add: accountBaseNames_def)
  have one: "distinct (map (unitRegionName (Suc n)) accountBaseNames)"
    using base by (auto simp: distinct_map inj_on_def dest: unitRegionName_inj)
  have disj: "set (concat (map (\<lambda>i. map (unitRegionName (Suc i)) accountBaseNames) [0..<n]))
      \<inter> set (map (unitRegionName (Suc n)) accountBaseNames) = {}"
    by (auto dest!: unitRegionName_inj)
  from Suc one disj show ?case by simp
qed

lemma program_names_not_unit:
  "unitRegionName k b \<noteq> ''Number of accounts''"
  "unitRegionName k b \<noteq> ''Instruction data size''"
  "unitRegionName k b \<noteq> ''Instruction data''"
  "unitRegionName k b \<noteq> ''Program ID''"
  by (simp_all add: unitRegionName_def)

lemma program_names_not_in_accounts:
  "''Number of accounts'' \<notin> set (map name (accountRegions st))"
  "''Instruction data size'' \<notin> set (map name (accountRegions st))"
  "''Instruction data'' \<notin> set (map name (accountRegions st))"
  "''Program ID'' \<notin> set (map name (accountRegions st))"
  by (auto simp: set_names_accountRegions program_names_not_unit program_names_not_unit[symmetric]
        simp del: set_map)

lemma distinct_names_accountRegions: "distinct (map name (accountRegions st))"
  unfolding names_accountRegions by (rule distinct_unit_names)

lemma distinct_names_programInputRegions: "distinct (map name (programInputRegions st))"
  unfolding names_programInputRegions
  using distinct_names_accountRegions[of st] program_names_not_in_accounts[of st]
  by simp

subsection \<open>Sizes and offsets\<close>

lemma accountTemplateTotal_eq: "accountTemplateTotal d = 10336 + d"
  by (simp add: accountTemplateTotal_def ACCOUNT_REGIONS_def)

lemma fixedRegionsTotal_eq: "fixedRegionsTotal d = 48 + d"
  by (simp add: fixedRegionsTotal_def PROGRAM_REGIONS_def)

lemma foldl_sizes: "foldl (\<lambda>sum region. sum + size_bytes region) a rs = a + sum_list (map size_bytes rs)"
  by (induction rs arbitrary: a) simp_all

lemma sum_sizes_instantiateAccount:
  "sum_list (map size_bytes (instantiateAccount sizes i)) = accountTemplateTotal (orDefault32 (sizeAt sizes i))"
  by (simp add: instantiateAccount_sizes accountTemplateTotal_eq)

lemma sum_sizes_concat_upt:
  "sum_list (map size_bytes (concat (map f [0..<n]))) = (\<Sum>i<n. sum_list (map size_bytes (f i)))"
  by (induction n) simp_all

lemma sum_sizes_accountRegions:
  "sum_list (map size_bytes (accountRegions st)) =
     (\<Sum>i<numberOfAccounts st. accountTemplateTotal (orDefault32 (sizeAt (accountDataSizes st) i)))"
  by (simp add: accountRegions_def sum_sizes_concat_upt sum_sizes_instantiateAccount)

lemma totalNamedRegionSize_eq:
  "totalNamedRegionSize st =
     fixedRegionsTotal (instructionDataSize st) +
     (\<Sum>i<numberOfAccounts st. accountTemplateTotal (orDefault32 (sizeAt (accountDataSizes st) i)))"
  by (simp add: totalNamedRegionSize_def foldl_sizes programInputRegions_def
      sum_sizes_accountRegions fixedRegionsTotal_eq PROGRAM_REGIONS_def)

lemma regionOffsetFrom_first_match:
  assumes "i < length rs" and "name (rs ! i) = nm" and "\<forall>j < i. name (rs ! j) \<noteq> nm"
  shows "regionOffsetFrom off rs nm = off + sum_list (map size_bytes (take i rs))"
  using assms
proof (induction rs arbitrary: off i)
  case Nil
  then show ?case by simp
next
  case (Cons r rs)
  show ?case
  proof (cases i)
    case 0
    with Cons.prems show ?thesis by simp
  next
    case (Suc k)
    with Cons.prems have r: "name r \<noteq> nm" by auto
    have "regionOffsetFrom (off + size_bytes r) rs nm =
        off + size_bytes r + sum_list (map size_bytes (take k rs))"
    proof (rule Cons.IH)
      show "k < length rs" using Cons.prems(1) Suc by simp
      show "name (rs ! k) = nm" using Cons.prems(2) Suc by simp
      show "\<forall>j<k. name (rs ! j) \<noteq> nm"
      proof (intro allI impI)
        fix j assume "j < k"
        then have "Suc j < i" using Suc by simp
        with Cons.prems(3) have "name ((r # rs) ! Suc j) \<noteq> nm" by blast
        then show "name (rs ! j) \<noteq> nm" by simp
      qed
    qed
    with r Suc show ?thesis by simp
  qed
qed

lemma regionOffsetFrom_not_found:
  "nm \<notin> set (map name rs) \<Longrightarrow> regionOffsetFrom off rs nm = - 1"
  by (induction rs arbitrary: off) auto

lemma regionOffsetFrom_distinct:
  assumes "distinct (map name rs)" and "i < length rs"
  shows "regionOffsetFrom off rs (name (rs ! i)) = off + sum_list (map size_bytes (take i rs))"
proof (rule regionOffsetFrom_first_match[OF assms(2) refl])
  show "\<forall>j<i. name (rs ! j) \<noteq> name (rs ! i)"
  proof (intro allI impI)
    fix j assume "j < i"
    then have "j < length (map name rs)" "i < length (map name rs)" "j \<noteq> i"
      using assms(2) by simp_all
    then have "map name rs ! j \<noteq> map name rs ! i"
      using assms(1) nth_eq_iff_index_eq by blast
    then show "name (rs ! j) \<noteq> name (rs ! i)"
      using \<open>j < i\<close> assms(2) by simp
  qed
qed

lemma getRegionOffset_nth:
  "i < length (programInputRegions st) \<Longrightarrow>
   getRegionOffset st (name (programInputRegions st ! i)) =
     sum_list (map size_bytes (take i (programInputRegions st)))"
  unfolding getRegionOffset_def
  using regionOffsetFrom_distinct[OF distinct_names_programInputRegions, of i st 0] by simp

lemma getRegionOffset_adjacent:
  assumes "Suc i < length (programInputRegions st)"
  shows "getRegionOffset st (name (programInputRegions st ! i)) + size_bytes (programInputRegions st ! i)
       = getRegionOffset st (name (programInputRegions st ! Suc i))"
proof -
  have "i < length (programInputRegions st)" using assms by simp
  then show ?thesis
    using assms by (simp add: getRegionOffset_nth take_Suc_conv_app_nth)
qed

subsection \<open>Bytes, rounding, and the loops of the handlers\<close>

lemma nth_littleEndianBytes:
  "k < 8 \<Longrightarrow> littleEndianBytes w ! k = ucast (drop_bit (8 * k) w)"
  by (simp add: littleEndianBytes_def del: upt_Suc)

lemma length_littleEndianBytes: "length (littleEndianBytes w) = 8"
  by (simp add: littleEndianBytes_def)

lemma uint_byte:
  "uint (ucast (drop_bit (8 * k) (w :: 64 word)) :: 8 word) = uint w div 256 ^ k mod 256"
proof -
  have "uint (ucast (drop_bit (8 * k) w) :: 8 word) = take_bit 8 (uint (drop_bit (8 * k) w))"
    by (simp add: unsigned_ucast_eq)
  also have "uint (drop_bit (8 * k) w) = drop_bit (8 * k) (uint w)"
  proof -
    have "take_bit 64 (uint w) = uint w"
      using uint_lt2p[of w] by (simp add: take_bit_int_eq_self)
    then show ?thesis by (simp add: unsigned_drop_bit_eq)
  qed
  also have "take_bit 8 (drop_bit (8 * k) (uint w)) = uint w div 2 ^ (8 * k) mod 2 ^ 8"
    by (simp add: take_bit_eq_mod drop_bit_eq_div)
  also have "(2 :: int) ^ (8 * k) = 256 ^ k"
    by (simp add: power_mult)
  finally show ?thesis by simp
qed

lemma uint_BigUint64: "uint (BigUint64 x) = x mod 2 ^ 64"
  by (simp add: BigUint64_def uint_word_of_int)

lemma unat_littleEndianBytes:
  "k < 8 \<Longrightarrow> unat (littleEndianBytes (BigUint64 x) ! k) = nat ((x mod 2 ^ 64) div 256 ^ k mod 256)"
  by (simp add: nth_littleEndianBytes unat_eq_nat_uint uint_byte uint_BigUint64)

lemma pushDefaults_eq: "pushDefaults xs n = xs @ replicate (n - length xs) (Some 32)"
proof (induction xs n rule: pushDefaults.induct)
  case (1 newSizes n)
  show ?case
  proof (cases "length newSizes < n")
    case True
    then have "n - length newSizes = Suc (n - length (newSizes @ [Some 32]))" by simp
    with True 1 show ?thesis
      by (subst pushDefaults.simps) (simp add: replicate_app_Cons_same)
  next
    case False
    then show ?thesis by (subst pushDefaults.simps) simp
  qed
qed

lemma neg_div_16: "- (- t div 16) = (t + 15) div (16 :: int)"
proof -
  have "t = 16 * (t div 16) + t mod 16" by simp
  moreover have "0 \<le> t mod 16" "t mod 16 < 16" by simp_all
  ultimately show ?thesis by linarith
qed

lemma maxRows_int: "maxRows st = (totalNamedRegionSize st + 15) div 16 + 1"
proof -
  have "\<lceil>real_of_int (totalNamedRegionSize st) / real_of_int 16\<rceil> = - (- totalNamedRegionSize st div 16)"
    by (rule ceiling_divide_eq_div)
  also have "\<dots> = (totalNamedRegionSize st + 15) div 16" by (rule neg_div_16)
  finally show ?thesis by (simp add: maxRows_def BYTES_PER_ROW_def)
qed

lemma set_tl_subset: "set (tl xs) \<subseteq> set xs"
  by (cases xs) auto

lemma leadingDigits_no_digit:
  assumes "\<forall>c \<in> set s. \<not> isRadixDigit 10 c"
  shows "leadingDigits s = []"
proof -
  have tw: "takeWhile (isRadixDigit 10) t = []" if "set t \<subseteq> set s" for t
    using that assms by (cases t) auto
  have S0: "set (dropWhile isWhiteSpace s) \<subseteq> set s"
    by (auto dest: set_dropWhileD)
  have S1: "set (tl (dropWhile isWhiteSpace s)) \<subseteq> set s"
    using S0 set_tl_subset[of "dropWhile isWhiteSpace s"] by blast
  show ?thesis
    unfolding leadingDigits_def Let_def by (simp add: tw[OF S0] tw[OF S1])
qed

lemma parseIntMath_decimal:
  "parseIntMath (Some s) (Some 10)
     = (if leadingDigits s = [] then None
        else Some (leadingSign s * mathInt 10 (leadingDigits s)))"
  unfolding parseIntMath_def leadingDigits_def leadingSign_def Let_def by simp

lemma parseInt_decimal:
  "parseInt (Some s) (Some 10)
     = (if leadingDigits s = [] then NaN
        else toDouble (leadingSign s * mathInt 10 (leadingDigits s)))"
  by (simp add: parseInt_def parseIntMath_decimal)

lemma sign_not_white: "\<not> isWhiteSpace (CHR ''+'')" "\<not> isWhiteSpace (CHR ''-'')"
  by (simp_all add: isWhiteSpace_def)

lemma leadingDigits_numeric:
  assumes "isNumericText s"
  shows "leadingDigits s = (if hd s = CHR ''+'' \<or> hd s = CHR ''-'' then tl s else s)"
    and "leadingDigits s \<noteq> []"
proof -
  let ?t = "if hd s = CHR ''+'' \<or> hd s = CHR ''-'' then tl s else s"
  have ne: "s \<noteq> []" using assms by (auto simp: isNumericText_def Let_def split: if_splits)
  have t: "?t \<noteq> []" "\<forall>c \<in> set ?t. isRadixDigit 10 c"
    using assms ne by (auto simp: isNumericText_def Let_def list_all_iff split: if_splits)
  have dw: "dropWhile isWhiteSpace s = s"
  proof (cases "hd s = CHR ''+'' \<or> hd s = CHR ''-''")
    case True
    then have "\<not> isWhiteSpace (hd s)" using sign_not_white by auto
    with ne show ?thesis by (cases s) simp_all
  next
    case False
    with t ne have "isRadixDigit 10 (hd s)" by (cases s) simp_all
    then have "\<not> isWhiteSpace (hd s)" by (rule digit_not_white)
    with ne show ?thesis by (cases s) simp_all
  qed
  have tw: "takeWhile (isRadixDigit 10) ?t = ?t" using t(2) by simp
  show eq: "leadingDigits s = ?t"
    unfolding leadingDigits_def Let_def dw using tw ne by simp
  show "leadingDigits s \<noteq> []" using t(1) unfolding eq .
qed

subsection \<open>Rows\<close>

lemma digitChar_eval:
  "digitChar 0 = CHR ''0''" "digitChar (Suc 0) = CHR ''1''" "digitChar 2 = CHR ''2''"
  "digitChar 3 = CHR ''3''" "digitChar 4 = CHR ''4''" "digitChar 5 = CHR ''5''"
  "digitChar 6 = CHR ''6''" "digitChar 7 = CHR ''7''" "digitChar 8 = CHR ''8''"
  "digitChar 9 = CHR ''9''" "digitChar 10 = CHR ''a''" "digitChar 11 = CHR ''b''"
  "digitChar 12 = CHR ''c''" "digitChar 13 = CHR ''d''" "digitChar 14 = CHR ''e''"
  "digitChar 15 = CHR ''f''"
  by code_simp+

lemmas layout_eval = programInputRegions_def accountRegions_def instantiateAccount_def
  PROGRAM_REGIONS_def ACCOUNT_REGIONS_def numberToString_def toStringRadix_small digitChar_eval
  sizeAt_def at_index_def orDefault32_def initialState_def MEMORY_SECTIONS_def

lemma totalRows_fixed:
  "section_name (selectedSection st) \<noteq> ''Program input parameters'' \<Longrightarrow>
   totalRows st = max 16 ((end_addr (selectedSection st) - start (selectedSection st) + 16) div 16)"
proof -
  let ?w = "end_addr (selectedSection st) - start (selectedSection st) + 1"
  assume a: "section_name (selectedSection st) \<noteq> ''Program input parameters''"
  have "\<lceil>real_of_int ?w / real_of_int 16\<rceil> = - (- ?w div 16)"
    by (rule ceiling_divide_eq_div)
  also have "\<dots> = (?w + 15) div 16" by (rule neg_div_16)
  finally show ?thesis using a by (simp add: totalRows_def BYTES_PER_ROW_def MIN_ROWS_def)
qed

text \<open>
  Claim C2. The grid of the section "Program input parameters" has
  \<open>max 16 (ceil (total / 16) + 1)\<close> rows, where \<open>total\<close> is the total size of the
  layout; the grid of any other section has
  \<open>max 16 (ceil ((end - start + 1) / 16))\<close> rows, with no extra row. Both
  ceilings are also given in integer arithmetic. So a fixed section that is
  \<open>0x100000000\<close> bytes wide has exactly 268435456 rows, and a layout of total
  size 0 has 16 rows.
\<close>

theorem C2_totalRows:
  "totalRows st =
     (if section_name (selectedSection st) = ''Program input parameters''
      then max 16 (\<lceil>real_of_int (totalNamedRegionSize st) / 16\<rceil> + 1)
      else max 16 \<lceil>real_of_int (end_addr (selectedSection st) - start (selectedSection st) + 1) / 16\<rceil>)
   \<and> (section_name (selectedSection st) = ''Program input parameters'' \<longrightarrow>
        totalRows st = max 16 ((totalNamedRegionSize st + 15) div 16 + 1))
   \<and> (section_name (selectedSection st) \<noteq> ''Program input parameters'' \<longrightarrow>
        totalRows st = max 16 ((end_addr (selectedSection st) - start (selectedSection st) + 16) div 16))
   \<and> (section_name (selectedSection st) \<noteq> ''Program input parameters''
        \<and> end_addr (selectedSection st) - start (selectedSection st) + 1 = 0x100000000 \<longrightarrow>
        totalRows st = 268435456)
   \<and> (section_name (selectedSection st) = ''Program input parameters''
        \<and> totalNamedRegionSize st = 0 \<longrightarrow> totalRows st = 16)"
proof (intro conjI impI)
  show "totalRows st =
     (if section_name (selectedSection st) = ''Program input parameters''
      then max 16 (\<lceil>real_of_int (totalNamedRegionSize st) / 16\<rceil> + 1)
      else max 16 \<lceil>real_of_int (end_addr (selectedSection st) - start (selectedSection st) + 1) / 16\<rceil>)"
    by (simp add: totalRows_def maxRows_def BYTES_PER_ROW_def MIN_ROWS_def)
next
  assume "section_name (selectedSection st) = ''Program input parameters''"
  then show "totalRows st = max 16 ((totalNamedRegionSize st + 15) div 16 + 1)"
    by (simp add: totalRows_def maxRows_int MIN_ROWS_def)
next
  assume "section_name (selectedSection st) \<noteq> ''Program input parameters''"
  then show "totalRows st = max 16 ((end_addr (selectedSection st) - start (selectedSection st) + 16) div 16)"
    by (rule totalRows_fixed)
next
  assume "section_name (selectedSection st) \<noteq> ''Program input parameters''
        \<and> end_addr (selectedSection st) - start (selectedSection st) + 1 = 0x100000000"
  then show "totalRows st = 268435456"
    by (simp add: totalRows_fixed)
next
  assume "section_name (selectedSection st) = ''Program input parameters''
        \<and> totalNamedRegionSize st = 0"
  then show "totalRows st = 16"
    by (simp add: totalRows_def maxRows_int MIN_ROWS_def)
qed

theorem C2_totalRows_witness:
  "totalRows (initialState\<lparr>selectedSection := MEMORY_SECTIONS ! 0\<rparr>) = 268435456
   \<and> totalRows (initialState\<lparr>selectedSection := MEMORY_SECTIONS ! 1\<rparr>) = 268435456
   \<and> totalRows (initialState\<lparr>selectedSection := MEMORY_SECTIONS ! 2\<rparr>) = 268435456
   \<and> totalNamedRegionSize (initialState\<lparr>numberOfAccounts := 0, accountDataSizes := [],
         instructionDataSize := - 48\<rparr>) = 0
   \<and> totalRows (initialState\<lparr>numberOfAccounts := 0, accountDataSizes := [],
         instructionDataSize := - 48\<rparr>) = 16
   \<and> totalNamedRegionSize initialState = 10448
   \<and> totalRows initialState = 654"
proof -
  let ?z = "initialState\<lparr>numberOfAccounts := 0, accountDataSizes := [], instructionDataSize := - 48\<rparr>"
  have z: "totalNamedRegionSize ?z = 0"
    by (simp add: totalNamedRegionSize_def layout_eval)
  have i: "totalNamedRegionSize initialState = 10448"
    by (simp add: totalNamedRegionSize_def layout_eval)
  have s: "section_name (selectedSection ?z) = ''Program input parameters''"
    "section_name (selectedSection initialState) = ''Program input parameters''"
    by (simp_all add: initialState_def MEMORY_SECTIONS_def)
  show ?thesis
    using C2_totalRows[of "initialState\<lparr>selectedSection := MEMORY_SECTIONS ! 0\<rparr>"]
      C2_totalRows[of "initialState\<lparr>selectedSection := MEMORY_SECTIONS ! 1\<rparr>"]
      C2_totalRows[of "initialState\<lparr>selectedSection := MEMORY_SECTIONS ! 2\<rparr>"]
      C2_totalRows[of ?z] C2_totalRows[of initialState] z i s
    by (simp add: initialState_def MEMORY_SECTIONS_def)
qed

subsection \<open>The little-endian display\<close>


lemma digits_sum_mod:
  "0 \<le> (v :: int) \<Longrightarrow> (\<Sum>k<n. (v div 256 ^ k mod 256) * 256 ^ k) = v mod 256 ^ n"
proof (induction n)
  case 0
  then show ?case by simp
next
  case (Suc n)
  have "v mod (256 ^ n * 256) = 256 ^ n * (v div 256 ^ n mod 256) + v mod 256 ^ n"
    by (rule zmod_zmult2_eq) simp
  with Suc show ?case by (simp add: mult.commute)
qed

lemma join_hex_bytes:
  "toLittleEndian x = join_str '' '' (map (\<lambda>k. hex2 (nat ((x mod 2 ^ 64) div 256 ^ k mod 256))) [0..<8])"
proof -
  have "map (\<lambda>b. hex2 (unat b)) (littleEndianBytes (BigUint64 x))
      = map (\<lambda>k. hex2 (unat (littleEndianBytes (BigUint64 x) ! k))) [0..<8]"
    by (simp add: littleEndianBytes_def)
  also have "\<dots> = map (\<lambda>k. hex2 (nat ((x mod 2 ^ 64) div 256 ^ k mod 256))) [0..<8]"
    by (rule map_cong[OF refl]) (simp add: unat_littleEndianBytes)
  finally show ?thesis by (simp add: toLittleEndian_def)
qed

text \<open>
  Claim C7, as amended. \<open>toLittleEndian\<close> receives a \<^verbatim>\<open>number\<close>, so an integer
  reaches it as the double nearest to it (\<open>toNumber\<close>). For every integer
  \<open>v\<close> with \<open>0 \<le> v < 2 ^ 64\<close> that a double holds exactly (by \<open>toNumber_safe\<close>
  every \<open>v < 2 ^ 53\<close> is one), the eight bytes are the little-endian encoding
  of \<open>v\<close>: byte \<open>k\<close> is \<open>v div 256 ^ k mod 256\<close>, the lowest-order byte first,
  the bytes weighted by \<open>256 ^ k\<close> add up to \<open>v\<close>, and the text shown is their
  two-digit hexadecimal forms joined by spaces.
\<close>

theorem C7_toLittleEndian:
  assumes "0 \<le> v" and "v < 2 ^ 64" and "toNumber v = v"
  shows "map unat (littleEndianBytes (BigUint64 (toNumber v)))
           = map (\<lambda>k. nat (v div 256 ^ k mod 256)) [0..<8]
       \<and> (\<Sum>k<8. int (unat (littleEndianBytes (BigUint64 (toNumber v)) ! k)) * 256 ^ k) = v
       \<and> toLittleEndian (toNumber v)
           = join_str '' '' (map (\<lambda>k. hex2 (nat (v div 256 ^ k mod 256))) [0..<8])"
proof -
  have m: "v mod 2 ^ 64 = v" using assms(1,2) by simp
  have bytes: "unat (littleEndianBytes (BigUint64 v) ! k) = nat (v div 256 ^ k mod 256)" if "k < 8" for k
    using that unat_littleEndianBytes[of k v] m by simp
  have "map unat (littleEndianBytes (BigUint64 v)) = map (\<lambda>k. unat (littleEndianBytes (BigUint64 v) ! k)) [0..<8]"
    by (simp add: littleEndianBytes_def)
  also have "\<dots> = map (\<lambda>k. nat (v div 256 ^ k mod 256)) [0..<8]"
    by (rule map_cong[OF refl]) (simp add: bytes)
  finally have 1: "map unat (littleEndianBytes (BigUint64 v)) = map (\<lambda>k. nat (v div 256 ^ k mod 256)) [0..<8]" .
  have "(\<Sum>k<8. int (unat (littleEndianBytes (BigUint64 v) ! k)) * 256 ^ k)
      = (\<Sum>k<8. (v div 256 ^ k mod 256) * 256 ^ k)"
    by (rule sum.cong[OF refl]) (simp add: bytes assms(1) pos_imp_zdiv_nonneg_iff)
  also have "\<dots> = v mod 256 ^ 8" using assms(1) by (rule digits_sum_mod)
  also have "\<dots> = v" using m by simp
  finally have 2: "(\<Sum>k<8. int (unat (littleEndianBytes (BigUint64 v) ! k)) * 256 ^ k) = v" .
  have 3: "toLittleEndian v = join_str '' '' (map (\<lambda>k. hex2 (nat (v div 256 ^ k mod 256))) [0..<8])"
    using join_hex_bytes[of v] m by simp
  from 1 2 3 show ?thesis by (simp only: assms(3) simp_thms)
qed

theorem C7_toLittleEndian_witness:
  "toLittleEndian (toNumber 258) = ''02 01 00 00 00 00 00 00''
   \<and> map unat (littleEndianBytes (BigUint64 (toNumber 258))) = [2, 1, 0, 0, 0, 0, 0, 0]"
proof -
  have n: "toNumber 258 = 258" by (rule toNumber_safe) simp
  have h: "hex2 0 = ''00''" "hex2 (Suc 0) = ''01''" "hex2 2 = ''02''"
    by code_simp+
  show ?thesis
    using C7_toLittleEndian[of 258] n by (simp add: upt_rec h)
qed

text \<open>
  The example of claim C7 is not such a value: \<open>0x0102030405060708\<close> lies above
  \<open>2 ^ 53\<close>, half way between two doubles, and the call
  \<^verbatim>\<open>toLittleEndian(0x0102030405060708)\<close> shows the bytes of \<open>0x0102030405060700\<close>.
\<close>

theorem C7_counterexample:
  "toLittleEndian (toNumber 0x0102030405060708) = ''00 07 06 05 04 03 02 01''
   \<and> toLittleEndian (toNumber 0x0102030405060708) \<noteq> ''08 07 06 05 04 03 02 01''"
proof -
  have "toLittleEndian (toNumber 0x0102030405060708) = ''00 07 06 05 04 03 02 01''"
    by code_simp
  then show ?thesis by simp
qed

subsection \<open>The parameter handlers\<close>

lemma sizeAt_arraySet: "sizeAt (arraySet xs i v) i = Some v"
  by (simp add: sizeAt_def at_index_def arraySet_def nth_append)

lemma numberOfAccounts_handle:
  "numberOfAccounts (handleNumberOfAccountsChange s st)
     = nat (case parseInt (Some s) (Some 10) of
              NaN \<Rightarrow> 0
            | Finite v \<Rightarrow> min (max v 0) 64
            | PlusInfinity \<Rightarrow> 64
            | MinusInfinity \<Rightarrow> 0)"
  by (simp add: handleNumberOfAccountsChange_def Let_def)

lemma parseIntMath_examples:
  "parseIntMath (Some ''abc'') (Some 10) = None"
  "parseIntMath (Some '''') (Some 10) = None"
  "parseIntMath (Some ''100'') (Some 10) = Some 100"
  "parseIntMath (Some ''-5'') (Some 10) = Some (- 5)"
  "parseIntMath (Some ''5'') (Some 10) = Some 5"
  "parseIntMath (Some ''2'') (Some 10) = Some 2"
  "parseIntMath (Some ''0'') (Some 10) = Some 0"
  "parseIntMath (Some ''-8'') (Some 10) = Some (- 8)"
  "parseIntMath (Some ''12abc'') (Some 10) = Some 12"
  by code_simp+

lemma parseInt_examples:
  "parseInt (Some ''abc'') (Some 10) = NaN"
  "parseInt (Some '''') (Some 10) = NaN"
  "parseInt (Some ''100'') (Some 10) = Finite 100"
  "parseInt (Some ''-5'') (Some 10) = Finite (- 5)"
  "parseInt (Some ''5'') (Some 10) = Finite 5"
  "parseInt (Some ''2'') (Some 10) = Finite 2"
  "parseInt (Some ''0'') (Some 10) = Finite 0"
  "parseInt (Some ''-8'') (Some 10) = Finite (- 8)"
  "parseInt (Some ''12abc'') (Some 10) = Finite 12"
  by (simp_all add: parseInt_def parseIntMath_examples toDouble_small)

lemma toDouble_cases:
  "toDouble v = (if 2 ^ 1024 \<le> \<bar>toNumber v\<bar>
                 then (if 0 < toNumber v then PlusInfinity else MinusInfinity)
                 else Finite (toNumber v))"
  by (simp add: toDouble_def Let_def)

lemma clamp_toDouble:
  "(case toDouble v of
      NaN \<Rightarrow> 0
    | Finite r \<Rightarrow> min (max r 0) 64
    | PlusInfinity \<Rightarrow> 64
    | MinusInfinity \<Rightarrow> 0)
   = (if v < 0 then 0 else if 64 < v then 64 else v)"
proof -
  consider "\<bar>v\<bar> < 2 ^ 53" | "2 ^ 53 \<le> v" | "v \<le> - (2 ^ 53)" by linarith
  then show ?thesis
  proof cases
    case 1
    then show ?thesis by (simp add: toDouble_small)
  next
    case 2
    then have "2 ^ 53 \<le> toNumber v" by (rule toNumber_large_pos)
    with 2 show ?thesis by (simp add: toDouble_def Let_def)
  next
    case 3
    then have "toNumber v \<le> - (2 ^ 53)" by (rule toNumber_large_neg)
    with 3 show ?thesis by (simp add: toDouble_def Let_def)
  qed
qed

text \<open>
  Claim C8, as amended. A handler reads its text with
  \<^verbatim>\<open>parseInt(value, 10)\<close>: after white space and an optional sign, the longest
  run of decimal digits, whatever follows it. Text with no such run (any text
  without a decimal digit is such) sets the number of accounts, the
  instruction data size and the addressed account data size to 0. Otherwise
  let \<open>v\<close> be the signed integer of the run. The number of accounts becomes
  \<open>v\<close> clamped to \<open>[0, 64]\<close>: 0 below 0, 64 above 64. The two data sizes store
  the double nearest to \<open>v\<close>, which is \<open>v\<close> itself below \<open>2 ^ 53\<close>, whatever its
  size and sign, and an infinity of the sign of \<open>v\<close> when \<open>v\<close> lies beyond the
  doubles. Text that is a decimal integer from its first character to its
  last is read whole.
\<close>

theorem C8_handlers:
  "parseInt (Some s) (Some 10)
     = (if leadingDigits s = [] then NaN
        else toDouble (leadingSign s * mathInt 10 (leadingDigits s)))
   \<and> ((\<forall>c \<in> set s. \<not> isRadixDigit 10 c) \<longrightarrow> leadingDigits s = [])
   \<and> (isNumericText s \<longrightarrow>
        leadingDigits s \<noteq> []
        \<and> leadingDigits s = (if hd s = CHR ''+'' \<or> hd s = CHR ''-'' then tl s else s))
   \<and> (leadingDigits s = [] \<longrightarrow>
        numberOfAccounts (handleNumberOfAccountsChange s st) = 0
        \<and> handleInstructionDataSizeChange s st = Stored (st\<lparr>instructionDataSize := 0\<rparr>)
        \<and> handleAccountDataSizeChange s i st
            = Stored (st\<lparr>accountDataSizes := arraySet (accountDataSizes st) i 0\<rparr>)
        \<and> sizeAt (arraySet (accountDataSizes st) i 0) i = Some 0)
   \<and> numberOfAccounts (handleNumberOfAccountsChange s st) \<le> 64
   \<and> (\<forall>v. leadingDigits s \<noteq> [] \<and> v = leadingSign s * mathInt 10 (leadingDigits s) \<longrightarrow>
        int (numberOfAccounts (handleNumberOfAccountsChange s st))
          = (if v < 0 then 0 else if 64 < v then 64 else v)
        \<and> (\<bar>toNumber v\<bar> < 2 ^ 1024 \<longrightarrow>
             handleInstructionDataSizeChange s st = Stored (st\<lparr>instructionDataSize := toNumber v\<rparr>)
             \<and> handleAccountDataSizeChange s i st
                 = Stored (st\<lparr>accountDataSizes := arraySet (accountDataSizes st) i (toNumber v)\<rparr>)
             \<and> sizeAt (arraySet (accountDataSizes st) i (toNumber v)) i = Some (toNumber v))
        \<and> (2 ^ 1024 \<le> toNumber v \<longrightarrow>
             handleInstructionDataSizeChange s st = StoresPlusInfinity
             \<and> handleAccountDataSizeChange s i st = StoresPlusInfinity)
        \<and> (toNumber v \<le> - (2 ^ 1024) \<longrightarrow>
             handleInstructionDataSizeChange s st = StoresMinusInfinity
             \<and> handleAccountDataSizeChange s i st = StoresMinusInfinity)
        \<and> (\<bar>v\<bar> < 2 ^ 53 \<longrightarrow> toNumber v = v))"
proof -
  have 1: "parseInt (Some s) (Some 10)
     = (if leadingDigits s = [] then NaN
        else toDouble (leadingSign s * mathInt 10 (leadingDigits s)))"
    by (rule parseInt_decimal)
  have 2: "leadingDigits s = []" if "\<forall>c \<in> set s. \<not> isRadixDigit 10 c"
    using that by (rule leadingDigits_no_digit)
  have 3: "leadingDigits s \<noteq> []
        \<and> leadingDigits s = (if hd s = CHR ''+'' \<or> hd s = CHR ''-'' then tl s else s)"
    if "isNumericText s"
    using leadingDigits_numeric[OF that] by simp
  have 4: "numberOfAccounts (handleNumberOfAccountsChange s st) = 0
        \<and> handleInstructionDataSizeChange s st = Stored (st\<lparr>instructionDataSize := 0\<rparr>)
        \<and> handleAccountDataSizeChange s i st
            = Stored (st\<lparr>accountDataSizes := arraySet (accountDataSizes st) i 0\<rparr>)
        \<and> sizeAt (arraySet (accountDataSizes st) i 0) i = Some 0"
    if "leadingDigits s = []"
    using that
    by (simp add: numberOfAccounts_handle handleInstructionDataSizeChange_def
        handleAccountDataSizeChange_def sizeAt_arraySet parseInt_decimal)
  have 5: "numberOfAccounts (handleNumberOfAccountsChange s st) \<le> 64"
    by (cases "parseInt (Some s) (Some 10)") (simp_all add: numberOfAccounts_handle)
  have 6: "int (numberOfAccounts (handleNumberOfAccountsChange s st))
          = (if v < 0 then 0 else if 64 < v then 64 else v)
        \<and> (\<bar>toNumber v\<bar> < 2 ^ 1024 \<longrightarrow>
             handleInstructionDataSizeChange s st = Stored (st\<lparr>instructionDataSize := toNumber v\<rparr>)
             \<and> handleAccountDataSizeChange s i st
                 = Stored (st\<lparr>accountDataSizes := arraySet (accountDataSizes st) i (toNumber v)\<rparr>)
             \<and> sizeAt (arraySet (accountDataSizes st) i (toNumber v)) i = Some (toNumber v))
        \<and> (2 ^ 1024 \<le> toNumber v \<longrightarrow>
             handleInstructionDataSizeChange s st = StoresPlusInfinity
             \<and> handleAccountDataSizeChange s i st = StoresPlusInfinity)
        \<and> (toNumber v \<le> - (2 ^ 1024) \<longrightarrow>
             handleInstructionDataSizeChange s st = StoresMinusInfinity
             \<and> handleAccountDataSizeChange s i st = StoresMinusInfinity)
        \<and> (\<bar>v\<bar> < 2 ^ 53 \<longrightarrow> toNumber v = v)"
    if "leadingDigits s \<noteq> [] \<and> v = leadingSign s * mathInt 10 (leadingDigits s)" for v
  proof -
    have p: "parseInt (Some s) (Some 10) = toDouble v"
      using that by (simp add: parseInt_decimal)
    have count: "int (numberOfAccounts (handleNumberOfAccountsChange s st))
          = (if v < 0 then 0 else if 64 < v then 64 else v)"
      by (simp only: numberOfAccounts_handle p clamp_toDouble) simp
    have fin: "handleInstructionDataSizeChange s st = Stored (st\<lparr>instructionDataSize := toNumber v\<rparr>)
             \<and> handleAccountDataSizeChange s i st
                 = Stored (st\<lparr>accountDataSizes := arraySet (accountDataSizes st) i (toNumber v)\<rparr>)
             \<and> sizeAt (arraySet (accountDataSizes st) i (toNumber v)) i = Some (toNumber v)"
      if "\<bar>toNumber v\<bar> < 2 ^ 1024"
      using that
      by (simp add: handleInstructionDataSizeChange_def handleAccountDataSizeChange_def p
          toDouble_cases sizeAt_arraySet)
    have inf: "handleInstructionDataSizeChange s st = StoresPlusInfinity
             \<and> handleAccountDataSizeChange s i st = StoresPlusInfinity"
      if "2 ^ 1024 \<le> toNumber v"
      using that
      by (simp add: handleInstructionDataSizeChange_def handleAccountDataSizeChange_def p
          toDouble_def)
    have neg: "handleInstructionDataSizeChange s st = StoresMinusInfinity
             \<and> handleAccountDataSizeChange s i st = StoresMinusInfinity"
      if "toNumber v \<le> - (2 ^ 1024)"
    proof -
      have "\<not> (2 :: int) ^ 1024 \<le> toNumber v" using that by (smt (verit) zero_less_power)
      with that show ?thesis
        by (simp add: handleInstructionDataSizeChange_def handleAccountDataSizeChange_def p
            toDouble_def)
    qed
    have safe: "toNumber v = v" if "\<bar>v\<bar> < 2 ^ 53"
      using that by (rule toNumber_safe)
    from count fin inf neg safe show ?thesis by blast
  qed
  from 1 2 3 4 5 6 show ?thesis by blast
qed

lemma C8_evaluations:
  "leadingDigits ''abc'' = []"
  "leadingDigits ''100'' = ''100''"
  "leadingSign ''100'' = 1"
  "mathInt 10 ''100'' = 100"
  "leadingDigits ''-5'' = ''5''"
  "leadingSign ''-5'' = - 1"
  "mathInt 10 ''5'' = 5"
  "leadingDigits ''9007199254740993'' = ''9007199254740993''"
  "leadingSign ''9007199254740993'' = 1"
  "mathInt 10 ''9007199254740993'' = 9007199254740993"
  "toNumber 9007199254740993 = 9007199254740992"
  "toNumber 100 = 100"
  "leadingDigits (CHR ''1'' # replicate 309 (CHR ''0'')) = CHR ''1'' # replicate 309 (CHR ''0'')"
  "leadingSign (CHR ''1'' # replicate 309 (CHR ''0'')) = 1"
  "(2 ^ 1024 \<le> toNumber (1 * mathInt 10 (CHR ''1'' # replicate 309 (CHR ''0'')))) = True"
  "leadingDigits (CHR ''-'' # CHR ''1'' # replicate 309 (CHR ''0'')) = CHR ''1'' # replicate 309 (CHR ''0'')"
  "leadingSign (CHR ''-'' # CHR ''1'' # replicate 309 (CHR ''0'')) = - 1"
  "(toNumber (- 1 * mathInt 10 (CHR ''1'' # replicate 309 (CHR ''0''))) \<le> - (2 ^ 1024)) = True"
  "(64 < 1 * mathInt 10 (CHR ''1'' # replicate 309 (CHR ''0''))) = True"
  "(1 * mathInt 10 (CHR ''1'' # replicate 309 (CHR ''0'')) < 0) = False"
  "isNumericText ''12abc'' = False"
  "isNumericText ''-5'' = True"
  by code_simp+

theorem C8_handlers_witness:
  "numberOfAccounts (handleNumberOfAccountsChange ''abc'' initialState) = 0
   \<and> handleInstructionDataSizeChange ''abc'' initialState
       = Stored (initialState\<lparr>instructionDataSize := 0\<rparr>)
   \<and> handleAccountDataSizeChange ''abc'' 0 initialState
       = Stored (initialState\<lparr>accountDataSizes := arraySet (accountDataSizes initialState) 0 0\<rparr>)
   \<and> numberOfAccounts (handleNumberOfAccountsChange ''100'' initialState) = 64
   \<and> handleInstructionDataSizeChange ''100'' initialState
       = Stored (initialState\<lparr>instructionDataSize := 100\<rparr>)
   \<and> numberOfAccounts (handleNumberOfAccountsChange ''-5'' initialState) = 0
   \<and> leadingDigits ''-5'' = ''5''
   \<and> handleInstructionDataSizeChange ''9007199254740993'' initialState
       = Stored (initialState\<lparr>instructionDataSize := 9007199254740992\<rparr>)
   \<and> handleInstructionDataSizeChange (CHR ''1'' # replicate 309 (CHR ''0'')) initialState
       = StoresPlusInfinity
   \<and> handleAccountDataSizeChange (CHR ''-'' # CHR ''1'' # replicate 309 (CHR ''0'')) 0 initialState
       = StoresMinusInfinity
   \<and> numberOfAccounts
        (handleNumberOfAccountsChange (CHR ''1'' # replicate 309 (CHR ''0'')) initialState) = 64"
proof -
  note abc = C8_handlers[of "''abc''" initialState 0, THEN conjunct2, THEN conjunct2,
      THEN conjunct2, THEN conjunct1, rule_format, OF C8_evaluations(1)]
  note general = C8_handlers[THEN conjunct2, THEN conjunct2, THEN conjunct2, THEN conjunct2,
      THEN conjunct2, rule_format]
  have hundred: "int (numberOfAccounts (handleNumberOfAccountsChange ''100'' initialState)) = 64"
    "handleInstructionDataSizeChange ''100'' initialState
       = Stored (initialState\<lparr>instructionDataSize := 100\<rparr>)"
    using general[of "''100''" 100 initialState 0] by (simp_all add: C8_evaluations)
  have minus: "int (numberOfAccounts (handleNumberOfAccountsChange ''-5'' initialState)) = 0"
    using general[of "''-5''" "- 5" initialState 0] by (simp add: C8_evaluations)
  have numeric: "leadingDigits ''-5'' = ''5''"
    using C8_handlers[of "''-5''" initialState 0, THEN conjunct2, THEN conjunct2,
        THEN conjunct1, rule_format]
    by (simp add: C8_evaluations)
  have rounded: "handleInstructionDataSizeChange ''9007199254740993'' initialState
       = Stored (initialState\<lparr>instructionDataSize := 9007199254740992\<rparr>)"
    using general[of "''9007199254740993''" 9007199254740993 initialState 0]
    by (simp add: C8_evaluations)
  let ?big = "CHR ''1'' # replicate 309 (CHR ''0'')"
  have big: "handleInstructionDataSizeChange ?big initialState = StoresPlusInfinity"
    "int (numberOfAccounts (handleNumberOfAccountsChange ?big initialState)) = 64"
    using general[of ?big "1 * mathInt 10 ?big" initialState 0]
    by (simp_all only: C8_evaluations simp_thms if_True if_False list.simps)
  have small: "handleAccountDataSizeChange (CHR ''-'' # ?big) 0 initialState = StoresMinusInfinity"
    using general[of "CHR ''-'' # ?big" "- 1 * mathInt 10 ?big" initialState 0]
    by (simp only: C8_evaluations simp_thms if_True if_False list.simps)
  from abc hundred minus numeric rounded big small show ?thesis by simp
qed

text \<open>
  Claim C8 as stated fails for text that is not a number and starts with a
  digit: \<^verbatim>\<open>12abc\<close> is not coerced to 0, the handlers read the digits \<^verbatim>\<open>12\<close> and
  ignore the rest.
\<close>

theorem C8_counterexample:
  "isNumericText ''12abc'' = False
   \<and> numberOfAccounts (handleNumberOfAccountsChange ''12abc'' initialState) = 12
   \<and> handleInstructionDataSizeChange ''12abc'' initialState
       = Stored (initialState\<lparr>instructionDataSize := 12\<rparr>)
   \<and> handleAccountDataSizeChange ''12abc'' 0 initialState
       = Stored (initialState\<lparr>accountDataSizes := [Some 12]\<rparr>)"
proof -
  have "isNumericText ''12abc'' = False" by code_simp
  then show ?thesis
    by (simp add: numberOfAccounts_handle handleInstructionDataSizeChange_def
        handleAccountDataSizeChange_def parseInt_examples arraySet_def initialState_def)
qed

lemma length_handleNumberOfAccountsChange:
  "length (accountDataSizes (handleNumberOfAccountsChange s st))
     = numberOfAccounts (handleNumberOfAccountsChange s st)"
  by (simp add: handleNumberOfAccountsChange_def Let_def pushDefaults_eq)

lemma sizes_handleNumberOfAccountsChange:
  "accountDataSizes (handleNumberOfAccountsChange s st) =
     take (numberOfAccounts (handleNumberOfAccountsChange s st))
       (accountDataSizes st @
        replicate (numberOfAccounts (handleNumberOfAccountsChange s st) - length (accountDataSizes st))
          (Some 32))"
  by (simp add: handleNumberOfAccountsChange_def Let_def pushDefaults_eq)

text \<open>
  Claim C9. Changing the number of accounts from \<open>m\<close> (the length of the list
  of account data sizes) to \<open>n\<close> leaves the first \<open>min m n\<close> sizes unchanged:
  growing appends the default \<open>32\<close> once per new account, shrinking cuts the
  list to its first \<open>n\<close> entries, and the list has \<open>n\<close> entries afterwards. From
  two accounts with sizes \<open>a\<close> and \<open>b\<close>, entering 5 gives \<open>a, b, 32, 32, 32\<close> and
  entering 2 again gives \<open>a, b\<close>.
\<close>

theorem C9_resize:
  "length (accountDataSizes (handleNumberOfAccountsChange s st))
     = numberOfAccounts (handleNumberOfAccountsChange s st)
   \<and> take (min (length (accountDataSizes st)) (numberOfAccounts (handleNumberOfAccountsChange s st)))
         (accountDataSizes (handleNumberOfAccountsChange s st))
       = take (min (length (accountDataSizes st)) (numberOfAccounts (handleNumberOfAccountsChange s st)))
           (accountDataSizes st)
   \<and> (length (accountDataSizes st) \<le> numberOfAccounts (handleNumberOfAccountsChange s st) \<longrightarrow>
        accountDataSizes (handleNumberOfAccountsChange s st)
          = accountDataSizes st
            @ replicate (numberOfAccounts (handleNumberOfAccountsChange s st) - length (accountDataSizes st))
                (Some 32))
   \<and> (numberOfAccounts (handleNumberOfAccountsChange s st) \<le> length (accountDataSizes st) \<longrightarrow>
        accountDataSizes (handleNumberOfAccountsChange s st)
          = take (numberOfAccounts (handleNumberOfAccountsChange s st)) (accountDataSizes st))
   \<and> (accountDataSizes st = [a, b] \<longrightarrow>
        accountDataSizes (handleNumberOfAccountsChange ''5'' st) = [a, b, Some 32, Some 32, Some 32]
        \<and> accountDataSizes (handleNumberOfAccountsChange ''2'' (handleNumberOfAccountsChange ''5'' st))
            = [a, b])"
proof -
  let ?n = "numberOfAccounts (handleNumberOfAccountsChange s st)"
  let ?old = "accountDataSizes st"
  have new: "accountDataSizes (handleNumberOfAccountsChange s st)
      = take ?n (?old @ replicate (?n - length ?old) (Some 32))"
    by (rule sizes_handleNumberOfAccountsChange)
  have 1: "length (accountDataSizes (handleNumberOfAccountsChange s st)) = ?n"
    by (rule length_handleNumberOfAccountsChange)
  have 2: "take (min (length ?old) ?n) (accountDataSizes (handleNumberOfAccountsChange s st))
      = take (min (length ?old) ?n) ?old"
    by (simp add: new min_def)
  have 3: "accountDataSizes (handleNumberOfAccountsChange s st)
      = ?old @ replicate (?n - length ?old) (Some 32)" if "length ?old \<le> ?n"
    using that by (simp add: new)
  have 4: "accountDataSizes (handleNumberOfAccountsChange s st) = take ?n ?old" if "?n \<le> length ?old"
    using that by (simp add: new)
  have 5: "accountDataSizes (handleNumberOfAccountsChange ''5'' st) = [a, b, Some 32, Some 32, Some 32]
      \<and> accountDataSizes (handleNumberOfAccountsChange ''2'' (handleNumberOfAccountsChange ''5'' st)) = [a, b]"
    if old: "?old = [a, b]"
  proof -
    have n5: "numberOfAccounts (handleNumberOfAccountsChange ''5'' st') = 5" for st'
      by (simp add: numberOfAccounts_handle parseInt_examples)
    have n2: "numberOfAccounts (handleNumberOfAccountsChange ''2'' st') = 2" for st'
      by (simp add: numberOfAccounts_handle parseInt_examples)
    have grown: "accountDataSizes (handleNumberOfAccountsChange ''5'' st) = [a, b, Some 32, Some 32, Some 32]"
      by (subst sizes_handleNumberOfAccountsChange) (simp add: n5 old eval_nat_numeral)
    have "accountDataSizes (handleNumberOfAccountsChange ''2'' (handleNumberOfAccountsChange ''5'' st)) = [a, b]"
      by (subst sizes_handleNumberOfAccountsChange) (simp add: n2 grown eval_nat_numeral)
    with grown show ?thesis by simp
  qed
  from 1 2 3 4 5 show ?thesis by blast
qed

theorem C9_resize_witness:
  "accountDataSizes (handleNumberOfAccountsChange ''5''
      (initialState\<lparr>numberOfAccounts := 2, accountDataSizes := [Some 7, Some 9]\<rparr>))
     = [Some 7, Some 9, Some 32, Some 32, Some 32]
   \<and> accountDataSizes (handleNumberOfAccountsChange ''2'' (handleNumberOfAccountsChange ''5''
      (initialState\<lparr>numberOfAccounts := 2, accountDataSizes := [Some 7, Some 9]\<rparr>)))
     = [Some 7, Some 9]
   \<and> numberOfAccounts (handleNumberOfAccountsChange ''5''
      (initialState\<lparr>numberOfAccounts := 2, accountDataSizes := [Some 7, Some 9]\<rparr>)) = 5"
proof -
  let ?st = "initialState\<lparr>numberOfAccounts := 2, accountDataSizes := [Some 7, Some 9]\<rparr>"
  have n: "numberOfAccounts (handleNumberOfAccountsChange ''5'' ?st) = 5"
    by (simp add: numberOfAccounts_handle parseInt_examples)
  have old: "accountDataSizes ?st = [Some 7, Some 9]" by simp
  show ?thesis
    using C9_resize[of "''5''" ?st "Some 7" "Some 9"] n old by (simp add: eval_nat_numeral)
qed

subsection \<open>The expansion\<close>

lemma nth_programInputRegions_account:
  assumes "i < numberOfAccounts st" and "j < 8"
  shows "programInputRegions st ! Suc (8 * i + j) = instantiateAccount (accountDataSizes st) i ! j"
proof -
  have "8 * i + j < length (accountRegions st)"
    using assms by (simp add: length_accountRegions)
  then have "programInputRegions st ! Suc (8 * i + j) = accountRegions st ! (8 * i + j)"
    by (simp add: programInputRegions_def PROGRAM_REGIONS_def nth_append)
  with assms show ?thesis by (simp add: nth_accountRegions)
qed

lemma length_accountBaseNames: "length accountBaseNames = 8"
  by (simp add: accountBaseNames_def)

lemma name_instantiateAccount_nth:
  "j < 8 \<Longrightarrow> name (instantiateAccount sizes i ! j) = unitRegionName (Suc i) (accountBaseNames ! j)"
proof -
  assume j: "j < 8"
  then have "name (instantiateAccount sizes i ! j) = map name (instantiateAccount sizes i) ! j"
    by (simp add: length_instantiateAccount)
  also have "\<dots> = unitRegionName (Suc i) (accountBaseNames ! j)"
    using j by (simp add: names_instantiateAccount length_accountBaseNames)
  finally show ?thesis .
qed

lemma size_instantiateAccount_nth:
  "j < 8 \<Longrightarrow> size_bytes (instantiateAccount sizes i ! j)
     = [4, 4, 64, 8, 8, orDefault32 (sizeAt sizes i), 10240, 8] ! j"
proof -
  assume j: "j < 8"
  then have "size_bytes (instantiateAccount sizes i ! j) = map size_bytes (instantiateAccount sizes i) ! j"
    by (simp add: length_instantiateAccount)
  then show ?thesis by (simp add: instantiateAccount_sizes)
qed

lemma accountBaseNames_template: "accountBaseNames = map name ACCOUNT_REGIONS"
  by (simp add: accountBaseNames_def ACCOUNT_REGIONS_def)

lemma accountBaseNames_nth: "j < 8 \<Longrightarrow> accountBaseNames ! j = name (ACCOUNT_REGIONS ! j)"
proof -
  assume "j < 8"
  moreover have "length ACCOUNT_REGIONS = 8" by (simp add: ACCOUNT_REGIONS_def)
  ultimately show ?thesis by (simp add: accountBaseNames_template)
qed

text \<open>
  Claim C1, as amended. For every number of accounts \<open>n\<close> (so for every \<open>n\<close> in
  \<open>[0, 64]\<close>), every list of account data sizes and every instruction data
  size, the expansion has \<open>4 + 8 * n\<close> regions: the first fixed region, then for
  each account \<open>i < n\<close> the eight regions of the template, in order, named
  "Account \<open>i + 1\<close>: " followed by the template name, then the other three
  fixed regions (\<open>unitRegionName k base\<close> is that name for account number
  \<open>k\<close>). The prefixes of different accounts differ and all names of
  the layout are distinct. The total size is the sum of the sizes of the fixed
  regions (with the instruction data size substituted) plus, for each account,
  the template total with that account's data size substituted, where a
  stored size of 0 or a missing entry counts as 32. With one account and both
  sizes 32 the total is 10448.
\<close>

theorem C1_expansion:
  "length (programInputRegions st) = 4 + 8 * numberOfAccounts st
   \<and> map name (programInputRegions st)
       = ''Number of accounts''
         # concat (map (\<lambda>i. map (unitRegionName (i + 1)) (map name ACCOUNT_REGIONS))
             [0..<numberOfAccounts st])
         @ [''Instruction data size'', ''Instruction data'', ''Program ID'']
   \<and> (\<forall>i < numberOfAccounts st. \<forall>j < 8.
         name (programInputRegions st ! (1 + 8 * i + j))
           = ''Account '' @ toStringRadix 10 (i + 1) @ '': '' @ name (ACCOUNT_REGIONS ! j))
   \<and> (\<forall>i k. i \<noteq> k \<longrightarrow>
         ''Account '' @ toStringRadix 10 (i + 1) @ '': '' \<noteq> ''Account '' @ toStringRadix 10 (k + 1) @ '': '')
   \<and> distinct (map name (programInputRegions st))
   \<and> totalNamedRegionSize st
       = fixedRegionsTotal (instructionDataSize st)
         + (\<Sum>i < numberOfAccounts st.
              accountTemplateTotal (orDefault32 (sizeAt (accountDataSizes st) i)))
   \<and> fixedRegionsTotal (instructionDataSize st) = 8 + 8 + instructionDataSize st + 32
   \<and> (\<forall>d. accountTemplateTotal d = 4 + 4 + 64 + 8 + 8 + d + 10240 + 8)
   \<and> (numberOfAccounts st = 1 \<and> sizeAt (accountDataSizes st) 0 = Some 32
        \<and> instructionDataSize st = 32 \<longrightarrow> totalNamedRegionSize st = 10448)"
proof (intro conjI allI impI)
  show "length (programInputRegions st) = 4 + 8 * numberOfAccounts st"
    by (rule length_programInputRegions)
next
  show "map name (programInputRegions st)
       = ''Number of accounts''
         # concat (map (\<lambda>i. map (unitRegionName (i + 1)) (map name ACCOUNT_REGIONS))
             [0..<numberOfAccounts st])
         @ [''Instruction data size'', ''Instruction data'', ''Program ID'']"
    by (simp add: names_programInputRegions names_accountRegions accountBaseNames_template)
next
  fix i j :: nat assume "i < numberOfAccounts st" and "j < 8"
  then show "name (programInputRegions st ! (1 + 8 * i + j))
           = ''Account '' @ toStringRadix 10 (i + 1) @ '': '' @ name (ACCOUNT_REGIONS ! j)"
    by (simp add: nth_programInputRegions_account name_instantiateAccount_nth unitRegionName_def
        accountBaseNames_nth)
next
  fix i k :: nat assume "i \<noteq> k"
  show "''Account '' @ toStringRadix 10 (i + 1) @ '': '' \<noteq> ''Account '' @ toStringRadix 10 (k + 1) @ '': ''"
  proof
    assume "''Account '' @ toStringRadix 10 (i + 1) @ '': '' = ''Account '' @ toStringRadix 10 (k + 1) @ '': ''"
    then have "unitRegionName (i + 1) [] = unitRegionName (k + 1) []"
      by (simp add: unitRegionName_def)
    then have "i + 1 = k + 1" by (auto dest: unitRegionName_inj)
    with \<open>i \<noteq> k\<close> show False by simp
  qed
next
  show "distinct (map name (programInputRegions st))"
    by (rule distinct_names_programInputRegions)
next
  show "totalNamedRegionSize st
       = fixedRegionsTotal (instructionDataSize st)
         + (\<Sum>i < numberOfAccounts st.
              accountTemplateTotal (orDefault32 (sizeAt (accountDataSizes st) i)))"
    by (rule totalNamedRegionSize_eq)
next
  show "fixedRegionsTotal (instructionDataSize st) = 8 + 8 + instructionDataSize st + 32"
    by (simp add: fixedRegionsTotal_eq)
next
  fix d show "accountTemplateTotal d = 4 + 4 + 64 + 8 + 8 + d + 10240 + 8"
    by (simp add: accountTemplateTotal_eq)
next
  assume "numberOfAccounts st = 1 \<and> sizeAt (accountDataSizes st) 0 = Some 32
        \<and> instructionDataSize st = 32"
  then show "totalNamedRegionSize st = 10448"
    by (simp add: totalNamedRegionSize_eq fixedRegionsTotal_eq accountTemplateTotal_eq orDefault32_def)
qed

theorem C1_expansion_witness:
  "length (programInputRegions initialState) = 12
   \<and> name (programInputRegions initialState ! 5) = ''Account 1: Account data size''
   \<and> totalNamedRegionSize initialState = 10448"
proof -
  have n: "numberOfAccounts initialState = 1" "instructionDataSize initialState = 32"
    "sizeAt (accountDataSizes initialState) 0 = Some 32"
    by (simp_all add: initialState_def sizeAt_def at_index_def)
  have d: "toStringRadix 10 (Suc 0) = ''1''" by code_simp
  have "name (programInputRegions initialState ! (1 + 8 * 0 + 4))
      = ''Account '' @ toStringRadix 10 (0 + 1) @ '': '' @ name (ACCOUNT_REGIONS ! 4)"
    using C1_expansion[of initialState, THEN conjunct2, THEN conjunct2, THEN conjunct1,
        rule_format, of 0 4] n
    by simp
  then have nm: "name (programInputRegions initialState ! 5) = ''Account 1: Account data size''"
    by (simp add: d ACCOUNT_REGIONS_def)
  show ?thesis
    using C1_expansion[of initialState] n nm by (simp add: orDefault32_def)
qed

text \<open>
  Claim C1 as stated fails where a stored account data size is 0: the
  expansion gives the data region 32 bytes, so the total is not the template
  total with the stored size substituted.
\<close>

theorem C1_counterexample:
  "totalNamedRegionSize (initialState\<lparr>accountDataSizes := [Some 0]\<rparr>) = 10448
   \<and> fixedRegionsTotal 32 + 1 * accountTemplateTotal 0 = 10416
   \<and> totalNamedRegionSize (initialState\<lparr>accountDataSizes := [Some 0]\<rparr>)
       \<noteq> fixedRegionsTotal (instructionDataSize (initialState\<lparr>accountDataSizes := [Some 0]\<rparr>))
         + 1 * accountTemplateTotal 0"
  by (simp add: totalNamedRegionSize_eq fixedRegionsTotal_eq accountTemplateTotal_eq
      initialState_def sizeAt_def at_index_def orDefault32_def)

subsection \<open>Offsets of adjacent regions\<close>

lemma sum_list_take_mono:
  assumes "\<forall>x \<in> set xs. (0 :: int) \<le> x" and "i \<le> j"
  shows "sum_list (take i xs) \<le> sum_list (take j xs)"
proof -
  have "take j xs = take i xs @ drop i (take j xs)"
    using assms(2) by (metis append_take_drop_id min.absorb1 take_take)
  then have "sum_list (take j xs) = sum_list (take i xs) + sum_list (drop i (take j xs))"
    by (metis sum_list_append)
  moreover have "0 \<le> sum_list (drop i (take j xs))"
    using assms(1) by (intro sum_list_nonneg) (auto dest!: in_set_dropD in_set_takeD)
  ultimately show ?thesis by simp
qed

lemma orDefault32_nonneg: "(\<forall>v. x = Some v \<longrightarrow> 0 \<le> v) \<Longrightarrow> 0 \<le> orDefault32 x"
  by (cases x) (simp_all add: orDefault32_def)

lemma sizeAt_in_set: "sizeAt sizes i = Some v \<Longrightarrow> Some v \<in> set sizes"
  by (auto simp: sizeAt_def at_index_def split: if_splits dest: nth_mem)

lemma sizes_nonneg:
  assumes "0 \<le> instructionDataSize st" and "\<forall>v. Some v \<in> set (accountDataSizes st) \<longrightarrow> 0 \<le> v"
  shows "\<forall>x \<in> set (map size_bytes (programInputRegions st)). 0 \<le> x"
proof -
  have eff: "0 \<le> orDefault32 (sizeAt (accountDataSizes st) i)" for i
    using assms(2) by (intro orDefault32_nonneg) (auto dest: sizeAt_in_set)
  have "\<forall>x \<in> set (map size_bytes (instantiateAccount (accountDataSizes st) i)). 0 \<le> x" for i
    using eff[of i] by (simp add: instantiateAccount_sizes)
  then have "\<forall>x \<in> set (map size_bytes (accountRegions st)). 0 \<le> x"
    by (auto simp: accountRegions_def)
  then show ?thesis
    using assms(1) by (auto simp: programInputRegions_def PROGRAM_REGIONS_def)
qed

lemma getRegionOffset_mono:
  assumes "0 \<le> instructionDataSize st" and "\<forall>v. Some v \<in> set (accountDataSizes st) \<longrightarrow> 0 \<le> v"
    and "i \<le> j" and "j < length (programInputRegions st)"
  shows "getRegionOffset st (name (programInputRegions st ! i))
           \<le> getRegionOffset st (name (programInputRegions st ! j))"
proof -
  have "sum_list (take i (map size_bytes (programInputRegions st)))
      \<le> sum_list (take j (map size_bytes (programInputRegions st)))"
    using sizes_nonneg[OF assms(1,2)] assms(3) by (rule sum_list_take_mono)
  then show ?thesis
    using assms(3,4) by (simp add: getRegionOffset_nth take_map)
qed

lemma getRegionOffset_no_overlap:
  assumes "0 \<le> instructionDataSize st" and "\<forall>v. Some v \<in> set (accountDataSizes st) \<longrightarrow> 0 \<le> v"
    and "i < j" and "j < length (programInputRegions st)"
  shows "getRegionOffset st (name (programInputRegions st ! i)) + size_bytes (programInputRegions st ! i)
           \<le> getRegionOffset st (name (programInputRegions st ! j))"
proof -
  have "Suc i < length (programInputRegions st)" using assms(3,4) by simp
  then have "getRegionOffset st (name (programInputRegions st ! i)) + size_bytes (programInputRegions st ! i)
      = getRegionOffset st (name (programInputRegions st ! Suc i))"
    by (rule getRegionOffset_adjacent)
  also have "\<dots> \<le> getRegionOffset st (name (programInputRegions st ! j))"
    using assms by (intro getRegionOffset_mono) simp_all
  finally show ?thesis .
qed

text \<open>
  In the expanded layout the offset of a region plus its size is the offset of
  the next region, and the offset of the region at position \<open>i\<close> is the sum of
  the sizes before it. When no size is negative, offsets are non-decreasing in
  layout order and no region reaches into a later one. For any list of
  regions, \<open>getRegionOffset\<close>'s loop returns the sum of the sizes before the
  first region with the name asked for, later regions of the same name
  notwithstanding, and \<open>- 1\<close> when there is none.
\<close>

lemma layout_offsets:
  "(\<forall>i. Suc i < length (programInputRegions st) \<longrightarrow>
        getRegionOffset st (name (programInputRegions st ! i)) + size_bytes (programInputRegions st ! i)
          = getRegionOffset st (name (programInputRegions st ! Suc i)))
   \<and> (\<forall>i < length (programInputRegions st).
        getRegionOffset st (name (programInputRegions st ! i))
          = sum_list (map size_bytes (take i (programInputRegions st))))
   \<and> (0 \<le> instructionDataSize st \<and> (\<forall>v. Some v \<in> set (accountDataSizes st) \<longrightarrow> 0 \<le> v) \<longrightarrow>
        (\<forall>i j. i \<le> j \<and> j < length (programInputRegions st) \<longrightarrow>
           getRegionOffset st (name (programInputRegions st ! i))
             \<le> getRegionOffset st (name (programInputRegions st ! j)))
        \<and> (\<forall>i j. i < j \<and> j < length (programInputRegions st) \<longrightarrow>
           getRegionOffset st (name (programInputRegions st ! i)) + size_bytes (programInputRegions st ! i)
             \<le> getRegionOffset st (name (programInputRegions st ! j))))
   \<and> (\<forall>rs nm i. i < length rs \<and> name (rs ! i) = nm \<and> (\<forall>j < i. name (rs ! j) \<noteq> nm) \<longrightarrow>
        regionOffsetFrom 0 rs nm = sum_list (map size_bytes (take i rs)))
   \<and> (\<forall>rs nm. nm \<notin> set (map name rs) \<longrightarrow> regionOffsetFrom 0 rs nm = - 1)"
proof (intro conjI allI impI)
  fix i assume "Suc i < length (programInputRegions st)"
  then show "getRegionOffset st (name (programInputRegions st ! i)) + size_bytes (programInputRegions st ! i)
          = getRegionOffset st (name (programInputRegions st ! Suc i))"
    by (rule getRegionOffset_adjacent)
next
  fix i assume "i < length (programInputRegions st)"
  then show "getRegionOffset st (name (programInputRegions st ! i))
          = sum_list (map size_bytes (take i (programInputRegions st)))"
    by (rule getRegionOffset_nth)
next
  fix i j
  assume "0 \<le> instructionDataSize st \<and> (\<forall>v. Some v \<in> set (accountDataSizes st) \<longrightarrow> 0 \<le> v)"
    and "i \<le> j \<and> j < length (programInputRegions st)"
  then show "getRegionOffset st (name (programInputRegions st ! i))
             \<le> getRegionOffset st (name (programInputRegions st ! j))"
    by (intro getRegionOffset_mono) simp_all
next
  fix i j
  assume "0 \<le> instructionDataSize st \<and> (\<forall>v. Some v \<in> set (accountDataSizes st) \<longrightarrow> 0 \<le> v)"
    and "i < j \<and> j < length (programInputRegions st)"
  then show "getRegionOffset st (name (programInputRegions st ! i)) + size_bytes (programInputRegions st ! i)
             \<le> getRegionOffset st (name (programInputRegions st ! j))"
    by (intro getRegionOffset_no_overlap) simp_all
next
  fix rs :: "Region list" and nm i
  assume "i < length rs \<and> name (rs ! i) = nm \<and> (\<forall>j < i. name (rs ! j) \<noteq> nm)"
  then show "regionOffsetFrom 0 rs nm = sum_list (map size_bytes (take i rs))"
    using regionOffsetFrom_first_match[of i rs nm 0] by simp
next
  fix rs :: "Region list" and nm
  assume "nm \<notin> set (map name rs)"
  then show "regionOffsetFrom 0 rs nm = - 1" by (rule regionOffsetFrom_not_found)
qed

text \<open>
  Claim C5 at a failing input. The two size handlers store a negative number
  as entered, where the handler of the count clamps with \<^verbatim>\<open>Math.max(value, 0)\<close>
  and the inputs declare \<^verbatim>\<open>min={0}\<close>. After \<^verbatim>\<open>-8\<close> is entered as the
  instruction data size, the region "Program ID" starts 8 bytes before the
  region "Instruction data" that precedes it in the layout; after \<^verbatim>\<open>-8\<close> is
  entered as the data size of account 1, "Account 1: Realloc padding" starts
  8 bytes before "Account 1: Account data". Offsets decrease and regions
  overlap.
\<close>

theorem C5_failing_input:
  "handleInstructionDataSizeChange ''-8'' initialState
     = Stored (initialState\<lparr>instructionDataSize := - 8\<rparr>)
   \<and> name (programInputRegions (initialState\<lparr>instructionDataSize := - 8\<rparr>) ! 10)
       = ''Instruction data''
   \<and> size_bytes (programInputRegions (initialState\<lparr>instructionDataSize := - 8\<rparr>) ! 10) = - 8
   \<and> name (programInputRegions (initialState\<lparr>instructionDataSize := - 8\<rparr>) ! 11)
       = ''Program ID''
   \<and> getRegionOffset (initialState\<lparr>instructionDataSize := - 8\<rparr>) ''Instruction data'' = 10384
   \<and> getRegionOffset (initialState\<lparr>instructionDataSize := - 8\<rparr>) ''Program ID'' = 10376
   \<and> handleAccountDataSizeChange ''-8'' 0 initialState
       = Stored (initialState\<lparr>accountDataSizes := [Some (- 8)]\<rparr>)
   \<and> name (programInputRegions (initialState\<lparr>accountDataSizes := [Some (- 8)]\<rparr>) ! 6)
       = ''Account 1: Account data''
   \<and> name (programInputRegions (initialState\<lparr>accountDataSizes := [Some (- 8)]\<rparr>) ! 7)
       = ''Account 1: Realloc padding''
   \<and> getRegionOffset (initialState\<lparr>accountDataSizes := [Some (- 8)]\<rparr>)
        ''Account 1: Account data'' = 96
   \<and> getRegionOffset (initialState\<lparr>accountDataSizes := [Some (- 8)]\<rparr>)
        ''Account 1: Realloc padding'' = 88"
proof -
  have h: "handleInstructionDataSizeChange ''-8'' initialState
     = Stored (initialState\<lparr>instructionDataSize := - 8\<rparr>)"
    "handleAccountDataSizeChange ''-8'' 0 initialState
       = Stored (initialState\<lparr>accountDataSizes := [Some (- 8)]\<rparr>)"
    by (simp_all add: handleInstructionDataSizeChange_def handleAccountDataSizeChange_def
        parseInt_examples arraySet_def initialState_def)
  have i: "name (programInputRegions (initialState\<lparr>instructionDataSize := - 8\<rparr>) ! 10)
       = ''Instruction data''"
    "size_bytes (programInputRegions (initialState\<lparr>instructionDataSize := - 8\<rparr>) ! 10) = - 8"
    "name (programInputRegions (initialState\<lparr>instructionDataSize := - 8\<rparr>) ! 11)
       = ''Program ID''"
    "getRegionOffset (initialState\<lparr>instructionDataSize := - 8\<rparr>) ''Instruction data'' = 10384"
    "getRegionOffset (initialState\<lparr>instructionDataSize := - 8\<rparr>) ''Program ID'' = 10376"
    by (simp_all add: getRegionOffset_def layout_eval)
  have a: "name (programInputRegions (initialState\<lparr>accountDataSizes := [Some (- 8)]\<rparr>) ! 6)
       = ''Account 1: Account data''"
    "name (programInputRegions (initialState\<lparr>accountDataSizes := [Some (- 8)]\<rparr>) ! 7)
       = ''Account 1: Realloc padding''"
    "getRegionOffset (initialState\<lparr>accountDataSizes := [Some (- 8)]\<rparr>)
        ''Account 1: Account data'' = 96"
    "getRegionOffset (initialState\<lparr>accountDataSizes := [Some (- 8)]\<rparr>)
        ''Account 1: Realloc padding'' = 88"
    by (simp_all add: getRegionOffset_def layout_eval)
  from h i a show ?thesis by simp
qed

subsection \<open>The value of a cell\<close>

lemma encodedByteAt_in:
  "offset \<le> int index \<Longrightarrow> int index < offset + 8 \<Longrightarrow>
   encodedByteAt x offset index = Some (hex2 (littleEndianByte x (nat (int index - offset))))"
  by (simp add: encodedByteAt_def unat_littleEndianBytes littleEndianByte_def)

lemma encodedByteAt_out:
  "\<not> (offset \<le> int index \<and> int index < offset + 8) \<Longrightarrow> encodedByteAt x offset index = None"
  by (simp add: encodedByteAt_def)

lemma hd_split_colon_unit:
  "hd (split_str (CHR '':'') (unitRegionName k base)) = ''Account '' @ toStringRadix 10 k"
proof -
  have "CHR '':'' \<notin> set (''Account '' @ toStringRadix 10 k)"
    using colon_not_decimal[of k] by simp
  then have "split_str (CHR '':'') ((''Account '' @ toStringRadix 10 k) @ CHR '':'' # (CHR '' '' # base))
      = (''Account '' @ toStringRadix 10 k) # split_str (CHR '':'') (CHR '' '' # base)"
    by (rule split_str_append)
  then show ?thesis by (simp add: unitRegionName_def)
qed

lemma split_space_account:
  "split_str (CHR '' '') (''Account '' @ toStringRadix 10 k) = [''Account'', toStringRadix 10 k]"
proof -
  have "split_str (CHR '' '') (''Account'' @ CHR '' '' # toStringRadix 10 k)
      = ''Account'' # split_str (CHR '' '') (toStringRadix 10 k)"
    by (rule split_str_append) simp
  moreover have "split_str (CHR '' '') (toStringRadix 10 k) = [toStringRadix 10 k]"
    using space_not_decimal by (rule split_str_no_sep)
  ultimately show ?thesis by simp
qed

lemma includes_unit_size: "includes_str (unitRegionName k ''Account data size'') ''Account data size''"
  unfolding includes_str_iff unitRegionName_def
  by (rule exI[of _ "''Account '' @ toStringRadix 10 k @ '': ''"], rule exI[of _ "[]"]) simp

lemma getMemoryValue_account:
  assumes "section_name (selectedSection st) = ''Program input parameters''"
    and "focusedRegion st = Some (unitRegionName k ''Account data size'')"
    and "k < 2 ^ 53"
  shows "getMemoryValue st index =
     (case encodedByteAt
             (orDefault32 (if k = 0 then None else sizeAt (accountDataSizes st) (k - 1)))
             (getRegionOffset st (unitRegionName k ''Account data size'')) index of
        None \<Rightarrow> hex2 (index mod 256) | Some s \<Rightarrow> s)"
proof -
  let ?f = "unitRegionName k ''Account data size''"
  have k: "int k < 2 ^ 53"
  proof -
    have "int k < int (2 ^ 53)" using assms(3) by (rule iffD2[OF of_nat_less_iff])
    then show ?thesis by simp
  qed
  have parsed: "parseInt (at_index (split_str (CHR '' '') (hd (split_str (CHR '':'') ?f))) 1) None
      = Finite (int k)"
  proof -
    have "at_index (split_str (CHR '' '') (hd (split_str (CHR '':'') ?f))) 1
        = Some (toStringRadix 10 k)"
      unfolding hd_split_colon_unit split_space_account by (simp add: at_index_def)
    then show ?thesis by (simp only: parseInt_toStringRadix[OF k])
  qed
  have idx: "numberPlus (Finite (int k)) (- 1) = Finite (int k - 1)"
    using k by (simp add: numberPlus_def toDouble_small)
  have again: "numberPlus (Finite (int k - 1)) 1 = Finite (int k)"
    using k by (simp add: numberPlus_def toDouble_small)
  have nm: "''Account '' @ numberToString (Finite (int k)) @ '': Account data size'' = ?f"
    by (simp add: numberToString_def unitRegionName_def)
  have stored: "(if int k - 1 < 0 then None else sizeAt (accountDataSizes st) (nat (int k - 1)))
      = (if k = 0 then None else sizeAt (accountDataSizes st) (k - 1))"
    by (cases k) (simp_all add: nat_diff_distrib')
  show ?thesis
    unfolding getMemoryValue_def Let_def
    using assms(1,2) parsed nm stored by (simp add: includes_unit_size idx again)
qed

lemma getMemoryValue_unfocused:
  "focusedRegion st = None \<or> section_name (selectedSection st) \<noteq> ''Program input parameters''
   \<Longrightarrow> getMemoryValue st index = hex2 (index mod 256)"
  by (auto simp: getMemoryValue_def Let_def)

lemma getMemoryValue_other:
  assumes "focusedRegion st = Some f" and "\<not> includes_str f ''Account data size''"
    and "f \<noteq> ''Instruction data size''" and "f \<noteq> ''Number of accounts''"
  shows "getMemoryValue st index = hex2 (index mod 256)"
  using assms by (simp add: getMemoryValue_def Let_def)

lemma getMemoryValue_instruction:
  assumes "section_name (selectedSection st) = ''Program input parameters''"
    and "focusedRegion st = Some ''Instruction data size''"
  shows "getMemoryValue st index =
     (case encodedByteAt (instructionDataSize st) (getRegionOffset st ''Instruction data size'') index of
        None \<Rightarrow> hex2 (index mod 256) | Some s \<Rightarrow> s)"
  using assms by (simp add: getMemoryValue_def Let_def)

lemma getMemoryValue_number:
  assumes "section_name (selectedSection st) = ''Program input parameters''"
    and "focusedRegion st = Some ''Number of accounts''"
  shows "getMemoryValue st index =
     (case encodedByteAt (int (numberOfAccounts st)) (getRegionOffset st ''Number of accounts'') index of
        None \<Rightarrow> hex2 (index mod 256) | Some s \<Rightarrow> s)"
  using assms by (simp add: getMemoryValue_def Let_def)

lemma z_in_base:
  "b \<in> set accountBaseNames \<Longrightarrow> CHR ''z'' \<in> set b \<Longrightarrow> b = ''Account data size''"
  by (auto simp: accountBaseNames_def)

lemma includes_unit_name:
  assumes "b \<in> set accountBaseNames" and "includes_str (unitRegionName k b) ''Account data size''"
  shows "b = ''Account data size''"
proof -
  have "CHR ''z'' \<in> set ''Account data size''" by simp
  with assms(2) have "CHR ''z'' \<in> set (unitRegionName k b)"
    using includes_str_set by blast
  moreover have "CHR ''z'' \<notin> set (toStringRadix 10 k)"
    using toStringRadix_decimal not_digit_chars(7) by blast
  ultimately have "CHR ''z'' \<in> set b" by (auto simp: unitRegionName_def)
  with assms(1) show ?thesis by (rule z_in_base)
qed

lemma layout_name_includes:
  assumes "f \<in> set (map name (programInputRegions st))" and "includes_str f ''Account data size''"
  shows "\<exists>i < numberOfAccounts st. f = unitRegionName (Suc i) ''Account data size''"
proof -
  have fixed: "\<not> includes_str ''Number of accounts'' ''Account data size''"
    "\<not> includes_str ''Instruction data size'' ''Account data size''"
    "\<not> includes_str ''Instruction data'' ''Account data size''"
    "\<not> includes_str ''Program ID'' ''Account data size''"
    by simp_all
  from assms(1) have "f \<in> set (map name (accountRegions st))
      \<or> f \<in> {''Number of accounts'', ''Instruction data size'', ''Instruction data'', ''Program ID''}"
    unfolding names_programInputRegions by auto
  with assms(2) fixed have "f \<in> set (map name (accountRegions st))" by auto
  then obtain i b where ib: "i < numberOfAccounts st" "b \<in> set accountBaseNames"
      "f = unitRegionName (Suc i) b"
    unfolding set_names_accountRegions by blast
  with assms(2) have "b = ''Account data size''" using includes_unit_name by blast
  with ib show ?thesis by blast
qed

lemma hex2_digits: "b < 256 \<Longrightarrow> hex2 b = [digitChar (b div 16), digitChar (b mod 16)]"
proof (cases "b < 16")
  case True
  then show ?thesis
    by (simp add: hex2_def padStart_def toStringRadix_small digitChar_eval(1)[symmetric])
next
  case False
  assume "b < 256"
  then have "b div 16 < 16" by simp
  with False show ?thesis
    by (simp add: hex2_def padStart_def toStringRadix_step toStringRadix_small)
qed

lemma of_char_hex_digit:
  "d < 16 \<Longrightarrow> (of_char (digitChar d) :: nat) = (if d < 10 then 48 + d else 87 + d)"
  by (simp add: digitChar_def)

lemma hex_digit_facts:
  assumes "d < 16"
  shows "digitValue (digitChar d) = Some d" and "\<not> isWhiteSpace (digitChar d)"
    and "digitChar d \<noteq> CHR ''-''" and "digitChar d \<noteq> CHR ''+''"
    and "digitChar d \<noteq> CHR ''x''" and "digitChar d \<noteq> CHR ''X''"
proof -
  show "digitValue (digitChar d) = Some d"
    using assms by (simp add: digitValue_def Let_def of_char_hex_digit)
  show "\<not> isWhiteSpace (digitChar d)"
    using assms by (simp add: isWhiteSpace_def Let_def of_char_hex_digit)
  have ne: "digitChar d \<noteq> c" if "(of_char c :: nat) < 48 \<or> (57 < (of_char c :: nat) \<and> (of_char c :: nat) < 97)
      \<or> 102 < (of_char c :: nat)" for c
  proof
    assume "digitChar d = c"
    then have "(of_char c :: nat) = (if d < 10 then 48 + d else 87 + d)"
      using assms of_char_hex_digit by blast
    with that assms show False by (auto split: if_splits)
  qed
  show "digitChar d \<noteq> CHR ''-''" "digitChar d \<noteq> CHR ''+''"
    "digitChar d \<noteq> CHR ''x''" "digitChar d \<noteq> CHR ''X''"
    by (rule ne, simp)+
qed

lemma parseInt_hex2: "b < 256 \<Longrightarrow> parseInt (Some (hex2 b)) (Some 16) = Finite (int b)"
proof -
  assume b: "b < 256"
  then have h: "b div 16 < 16" and l: "b mod 16 < 16" by simp_all
  have "parseIntMath (Some [digitChar (b div 16), digitChar (b mod 16)]) (Some 16)
      = Some (int (b div 16) * 16 + int (b mod 16))"
    unfolding parseIntMath_def Let_def
    by (simp add: hex_digit_facts[OF h] hex_digit_facts[OF l] isRadixDigit_def mathInt_def h l)
  moreover have "int (b div 16) * 16 + int (b mod 16) = int b"
    by (simp add: zdiv_int zmod_int)
  ultimately have "parseIntMath (Some (hex2 b)) (Some 16) = Some (int b)"
    using b by (simp only: hex2_digits)
  moreover have "\<bar>int b\<bar> < 2 ^ 53" using b by simp
  ultimately show ?thesis by (simp add: parseInt_def toDouble_small)
qed

text \<open>
  Claim C3. When no region is focused, or another section is selected, or
  the focused region of the layout is none of the three size fields ("Number
  of accounts", "Instruction data size", "Account k: Account data size"), or
  the byte lies outside the eight bytes of the focused size field, the cell
  shows \<open>index mod 256\<close> as two hexadecimal digits, which read back as that
  number; the selected section, the layout and the parameters play no part.
  The eight bytes of a field are those that start at the sum of the sizes of
  the regions before it in the layout. Unfocused, the value at \<open>index + 256\<close>
  is the value at \<open>index\<close>.
\<close>

theorem C3_fallback:
  assumes "focusedRegion st = None
     \<or> section_name (selectedSection st) \<noteq> ''Program input parameters''
     \<or> (\<exists>i. i < length (programInputRegions st) \<and> numberOfAccounts st < 2 ^ 53
          \<and> focusedRegion st = Some (name (programInputRegions st ! i))
          \<and> ((name (programInputRegions st ! i) \<noteq> ''Number of accounts''
               \<and> name (programInputRegions st ! i) \<noteq> ''Instruction data size''
               \<and> (\<forall>k. name (programInputRegions st ! i) \<noteq> unitRegionName k ''Account data size''))
             \<or> \<not> (sum_list (map size_bytes (take i (programInputRegions st))) \<le> int index
                   \<and> int index < sum_list (map size_bytes (take i (programInputRegions st))) + 8)))"
  shows "getMemoryValue st index = hex2 (index mod 256)
     \<and> parseInt (Some (getMemoryValue st index)) (Some 16) = Finite (int (index mod 256))
     \<and> (focusedRegion st = None \<or> section_name (selectedSection st) \<noteq> ''Program input parameters''
          \<longrightarrow> getMemoryValue st (index + 256) = getMemoryValue st index)"
proof -
  have main: "getMemoryValue st index = hex2 (index mod 256)"
  proof (cases "focusedRegion st = None
      \<or> section_name (selectedSection st) \<noteq> ''Program input parameters''")
    case True
    then show ?thesis by (rule getMemoryValue_unfocused)
  next
    case False
    then have sec: "section_name (selectedSection st) = ''Program input parameters''" by simp
    from False assms obtain i where i: "i < length (programInputRegions st)"
        and n: "numberOfAccounts st < 2 ^ 53"
        and fi: "focusedRegion st = Some (name (programInputRegions st ! i))"
        and ci: "(name (programInputRegions st ! i) \<noteq> ''Number of accounts''
               \<and> name (programInputRegions st ! i) \<noteq> ''Instruction data size''
               \<and> (\<forall>k. name (programInputRegions st ! i) \<noteq> unitRegionName k ''Account data size''))
             \<or> \<not> (sum_list (map size_bytes (take i (programInputRegions st))) \<le> int index
                   \<and> int index < sum_list (map size_bytes (take i (programInputRegions st))) + 8)"
      by blast
    define f where "f = name (programInputRegions st ! i)"
    have off: "getRegionOffset st (name (programInputRegions st ! i))
        = sum_list (map size_bytes (take i (programInputRegions st)))"
      using i by (rule getRegionOffset_nth)
    have f: "focusedRegion st = Some f"
        "f \<in> set (map name (programInputRegions st))"
        "(f \<noteq> ''Number of accounts'' \<and> f \<noteq> ''Instruction data size''
               \<and> (\<forall>k. f \<noteq> unitRegionName k ''Account data size''))
         \<or> \<not> (getRegionOffset st f \<le> int index \<and> int index < getRegionOffset st f + 8)"
      using fi ci i unfolding f_def off by simp_all
    show ?thesis
    proof (cases "includes_str f ''Account data size''")
      case True
      with f(2) obtain j where j: "j < numberOfAccounts st"
          "f = unitRegionName (Suc j) ''Account data size''"
        using layout_name_includes by blast
      with f(3) have out: "\<not> (getRegionOffset st f \<le> int index \<and> int index < getRegionOffset st f + 8)"
        by blast
      have small: "Suc j < 2 ^ 53" using j(1) n by simp
      show ?thesis
        using getMemoryValue_account[OF sec f(1)[unfolded j(2)] small, of index] out
        by (simp add: encodedByteAt_out j(2))
    next
      case nonacc: False
      have out: "\<not> (getRegionOffset st f \<le> int index \<and> int index < getRegionOffset st f + 8)"
        if "f = ''Instruction data size'' \<or> f = ''Number of accounts''"
        using that f(3) by blast
      show ?thesis
      proof (cases "f = ''Instruction data size''")
        case e: True
        show ?thesis
          using getMemoryValue_instruction[OF sec f(1)[unfolded e], of index] out e
          by (simp add: encodedByteAt_out)
      next
        case ni: False
        show ?thesis
        proof (cases "f = ''Number of accounts''")
          case e: True
          show ?thesis
            using getMemoryValue_number[OF sec f(1)[unfolded e], of index] out e
            by (simp add: encodedByteAt_out)
        next
          case nn: False
          from f(1) nonacc ni nn show ?thesis by (rule getMemoryValue_other)
        qed
      qed
    qed
  qed
  have readback: "parseInt (Some (hex2 (index mod 256))) (Some 16) = Finite (int (index mod 256))"
    by (rule parseInt_hex2) simp
  have period: "getMemoryValue st (index + 256) = getMemoryValue st index"
    if "focusedRegion st = None \<or> section_name (selectedSection st) \<noteq> ''Program input parameters''"
    using that by (simp add: getMemoryValue_unfocused)
  from main readback period show ?thesis by simp
qed

lemma hex2_eval:
  "hex2 0 = ''00''" "hex2 (Suc 0) = ''01''" "hex2 32 = ''20''" "hex2 44 = ''2c''"
  "hex2 88 = ''58''" "hex2 96 = ''60''" "hex2 160 = ''a0''" "hex2 255 = ''ff''"
  "hex2 3 = ''03''" "hex2 87 = ''57''" "hex2 8 = ''08''"
  by (simp_all add: hex2_digits digitChar_eval)

theorem C3_fallback_witness:
  "getMemoryValue initialState 0 = ''00''
   \<and> getMemoryValue initialState 255 = ''ff''
   \<and> getMemoryValue initialState 256 = ''00''
   \<and> getMemoryValue initialState 257 = ''01''
   \<and> getMemoryValue initialState 100000 = ''a0''
   \<and> name (programInputRegions initialState ! 5) = ''Account 1: Account data size''
   \<and> sum_list (map size_bytes (take 5 (programInputRegions initialState))) = 88
   \<and> getMemoryValue (initialState\<lparr>focusedRegion := Some ''Account 1: Account data size''\<rparr>) 3 = ''03''
   \<and> getMemoryValue (initialState\<lparr>focusedRegion := Some ''Account 1: Account data size''\<rparr>) 87 = ''57''
   \<and> getMemoryValue (initialState\<lparr>focusedRegion := Some ''Account 1: Account data size''\<rparr>) 96 = ''60''
   \<and> getMemoryValue (initialState\<lparr>focusedRegion := Some ''Number of accounts''\<rparr>) 8 = ''08''
   \<and> getMemoryValue (initialState\<lparr>focusedRegion := Some ''Account 1: Lamports''\<rparr>) 88 = ''58''"
proof -
  let ?a = "initialState\<lparr>focusedRegion := Some ''Account 1: Account data size''\<rparr>"
  let ?b = "initialState\<lparr>focusedRegion := Some ''Account 1: Lamports''\<rparr>"
  let ?c = "initialState\<lparr>focusedRegion := Some ''Number of accounts''\<rparr>"
  have u: "focusedRegion initialState = None" by (simp add: initialState_def)
  have L: "name (programInputRegions initialState ! 5) = ''Account 1: Account data size''"
    "sum_list (map size_bytes (take 5 (programInputRegions initialState))) = 88"
    by (simp_all add: layout_eval)
  have a: "5 < length (programInputRegions ?a)" "numberOfAccounts ?a < 2 ^ 53"
    "focusedRegion ?a = Some (name (programInputRegions ?a ! 5))"
    "sum_list (map size_bytes (take 5 (programInputRegions ?a))) = 88"
    by (simp_all add: layout_eval)
  have c: "0 < length (programInputRegions ?c)" "numberOfAccounts ?c < 2 ^ 53"
    "focusedRegion ?c = Some (name (programInputRegions ?c ! 0))"
    "sum_list (map size_bytes (take 0 (programInputRegions ?c))) = 0"
    by (simp_all add: layout_eval)
  have b: "4 < length (programInputRegions ?b)" "numberOfAccounts ?b < 2 ^ 53"
    "focusedRegion ?b = Some (name (programInputRegions ?b ! 4))"
    "name (programInputRegions ?b ! 4) \<noteq> ''Number of accounts''"
    "name (programInputRegions ?b ! 4) \<noteq> ''Instruction data size''"
    by (simp_all add: layout_eval)
  have b': "\<forall>k. name (programInputRegions ?b ! 4) \<noteq> unitRegionName k ''Account data size''"
  proof -
    have "name (programInputRegions ?b ! 4) = unitRegionName (Suc 0) ''Lamports''"
      by (simp add: layout_eval unitRegionName_def)
    then show ?thesis
      using unitRegionName_inj[of "Suc 0" "''Lamports''" _ "''Account data size''"] by auto
  qed
  have outside: "getMemoryValue ?a index = hex2 (index mod 256)"
    if "\<not> (88 \<le> int index \<and> int index < 88 + 8)" for index
  proof -
    have "focusedRegion ?a = None
       \<or> section_name (selectedSection ?a) \<noteq> ''Program input parameters''
       \<or> (\<exists>i. i < length (programInputRegions ?a) \<and> numberOfAccounts ?a < 2 ^ 53
            \<and> focusedRegion ?a = Some (name (programInputRegions ?a ! i))
            \<and> ((name (programInputRegions ?a ! i) \<noteq> ''Number of accounts''
                 \<and> name (programInputRegions ?a ! i) \<noteq> ''Instruction data size''
                 \<and> (\<forall>k. name (programInputRegions ?a ! i) \<noteq> unitRegionName k ''Account data size''))
               \<or> \<not> (sum_list (map size_bytes (take i (programInputRegions ?a))) \<le> int index
                     \<and> int index < sum_list (map size_bytes (take i (programInputRegions ?a))) + 8)))"
      apply (rule disjI2, rule disjI2, rule exI[of _ 5])
      apply (intro conjI a(1) a(2) a(3) disjI2)
      apply (simp only: a(4))
      apply (rule that)
      done
    then show ?thesis by (rule C3_fallback[THEN conjunct1])
  qed
  have "focusedRegion ?c = None
       \<or> section_name (selectedSection ?c) \<noteq> ''Program input parameters''
       \<or> (\<exists>i. i < length (programInputRegions ?c) \<and> numberOfAccounts ?c < 2 ^ 53
            \<and> focusedRegion ?c = Some (name (programInputRegions ?c ! i))
            \<and> ((name (programInputRegions ?c ! i) \<noteq> ''Number of accounts''
                 \<and> name (programInputRegions ?c ! i) \<noteq> ''Instruction data size''
                 \<and> (\<forall>k. name (programInputRegions ?c ! i) \<noteq> unitRegionName k ''Account data size''))
               \<or> \<not> (sum_list (map size_bytes (take i (programInputRegions ?c))) \<le> int 8
                     \<and> int 8 < sum_list (map size_bytes (take i (programInputRegions ?c))) + 8)))"
    apply (rule disjI2, rule disjI2, rule exI[of _ 0])
    apply (intro conjI c(1) c(2) c(3) disjI2)
    apply (simp only: c(4))
    apply simp
    done
  then have count: "getMemoryValue ?c 8 = hex2 (8 mod 256)"
    by (rule C3_fallback[THEN conjunct1])
  have "focusedRegion ?b = None
       \<or> section_name (selectedSection ?b) \<noteq> ''Program input parameters''
       \<or> (\<exists>i. i < length (programInputRegions ?b) \<and> numberOfAccounts ?b < 2 ^ 53
            \<and> focusedRegion ?b = Some (name (programInputRegions ?b ! i))
            \<and> ((name (programInputRegions ?b ! i) \<noteq> ''Number of accounts''
                 \<and> name (programInputRegions ?b ! i) \<noteq> ''Instruction data size''
                 \<and> (\<forall>k. name (programInputRegions ?b ! i) \<noteq> unitRegionName k ''Account data size''))
               \<or> \<not> (sum_list (map size_bytes (take i (programInputRegions ?b))) \<le> int 88
                     \<and> int 88 < sum_list (map size_bytes (take i (programInputRegions ?b))) + 8)))"
    apply (rule disjI2, rule disjI2, rule exI[of _ 4])
    apply (intro conjI b(1) b(2) b(3) disjI1 b(4) b(5) b')
    done
  then have lamports: "getMemoryValue ?b 88 = hex2 (88 mod 256)"
    by (rule C3_fallback[THEN conjunct1])
  have v: "getMemoryValue initialState index = hex2 (index mod 256)" for index
    by (rule C3_fallback[THEN conjunct1], rule disjI1, rule u)
  have o: "getMemoryValue ?a 3 = hex2 (3 mod 256)" "getMemoryValue ?a 87 = hex2 (87 mod 256)"
    "getMemoryValue ?a 96 = hex2 (96 mod 256)"
    by (rule outside, simp)+
  from v[of 0] v[of 255] v[of 256] v[of 257] v[of 100000] L o count lamports
  show ?thesis by (simp add: hex2_eval)
qed

text \<open>
  A remark on the domain of claim C3. A focused name that contains
  "Account data size" and is not a region of the layout (the name of an
  account that is no longer there) is looked up without success, and the
  offset \<open>- 1\<close> of the failed lookup is used as the start of the field: bytes 0
  to 6 then show the bytes 1 to 7 of the encoded default and not the pattern.
  The component focuses only names of the current layout.
\<close>

lemma getMemoryValue_stale_focus:
  "getRegionOffset (initialState\<lparr>focusedRegion := Some ''Account 9: Account data size''\<rparr>)
     ''Account 9: Account data size'' = - 1
   \<and> getMemoryValue (initialState\<lparr>focusedRegion := Some ''Account 9: Account data size''\<rparr>) 3
       = ''00''
   \<and> hex2 (3 mod 256) = ''03''"
proof -
  let ?st = "initialState\<lparr>focusedRegion := Some ''Account 9: Account data size''\<rparr>"
  have u: "unitRegionName 9 ''Account data size'' = ''Account 9: Account data size''"
    by (simp add: unitRegionName_def toStringRadix_small digitChar_eval)
  have s: "section_name (selectedSection ?st) = ''Program input parameters''"
    by (simp add: initialState_def MEMORY_SECTIONS_def)
  have f: "focusedRegion ?st = Some (unitRegionName 9 ''Account data size'')"
    by (simp add: u)
  have k: "(9 :: nat) < 2 ^ 53" by simp
  have off: "getRegionOffset ?st ''Account 9: Account data size'' = - 1"
    by (simp add: getRegionOffset_def layout_eval)
  have z: "sizeAt (accountDataSizes ?st) 8 = None"
    by (simp add: initialState_def sizeAt_def at_index_def)
  have "getMemoryValue ?st 3 = hex2 (littleEndianByte 32 4)"
    using getMemoryValue_account[OF s f k, of 3] z
    by (simp add: u off encodedByteAt_in orDefault32_def)
  moreover have "littleEndianByte 32 4 = 0"
    by (simp add: littleEndianByte_def)
  moreover have "hex2 (3 mod 256) = ''03''"
    by (simp add: hex2_digits digitChar_eval)
  ultimately show ?thesis by (simp add: off hex2_eval)
qed

lemma littleEndianByte_0: "littleEndianByte x 0 = nat (x mod 256)"
proof -
  have "x mod 2 ^ 64 mod 256 = x mod 256"
    by (rule mod_mod_cancel) simp
  then show ?thesis by (simp add: littleEndianByte_def)
qed

lemma unitRegionName_1: "unitRegionName (Suc 0) base = ''Account 1: '' @ base"
  by (simp add: unitRegionName_def toStringRadix_small digitChar_eval)

text \<open>
  Claim C4, as amended. With the section "Program input parameters"
  selected and one of the three size fields focused, a cell within the eight
  bytes that start at the field's offset shows the byte, at that position, of
  the unsigned 64-bit little-endian encoding of the field's value (the value
  modulo \<open>2 ^ 64\<close>): the number of accounts, the instruction data size, or for
  "Account k: Account data size" (\<open>k\<close> below \<open>2 ^ 53\<close>, so that the number in the
  name is read back exactly) the stored size of account \<open>k\<close>, where a
  stored size of 0 or a missing entry is encoded as 32. The first byte of a
  focused account data size field whose stored size is not 0 is the low-order
  byte of that size.
\<close>

theorem C4_focused_size_fields:
  assumes "section_name (selectedSection st) = ''Program input parameters''"
    and "focusedRegion st = Some f"
    and "getRegionOffset st f \<le> int index" and "int index < getRegionOffset st f + 8"
  shows "(f = ''Number of accounts'' \<longrightarrow>
            getMemoryValue st index
              = hex2 (littleEndianByte (int (numberOfAccounts st)) (nat (int index - getRegionOffset st f))))
     \<and> (f = ''Instruction data size'' \<longrightarrow>
            getMemoryValue st index
              = hex2 (littleEndianByte (instructionDataSize st) (nat (int index - getRegionOffset st f))))
     \<and> (\<forall>k. 1 \<le> k \<and> k < 2 ^ 53 \<and> f = unitRegionName k ''Account data size'' \<longrightarrow>
            getMemoryValue st index
              = hex2 (littleEndianByte (orDefault32 (sizeAt (accountDataSizes st) (k - 1)))
                        (nat (int index - getRegionOffset st f))))
     \<and> (\<forall>k v. 1 \<le> k \<and> k < 2 ^ 53 \<and> f = unitRegionName k ''Account data size''
            \<and> sizeAt (accountDataSizes st) (k - 1) = Some v \<and> v \<noteq> 0
            \<and> int index = getRegionOffset st f \<longrightarrow>
            getMemoryValue st index = hex2 (nat (v mod 256)))"
proof (intro conjI allI impI)
  assume e: "f = ''Number of accounts''"
  show "getMemoryValue st index
      = hex2 (littleEndianByte (int (numberOfAccounts st)) (nat (int index - getRegionOffset st f)))"
    using getMemoryValue_number[OF assms(1) assms(2)[unfolded e], of index] assms(3,4)
    by (simp add: encodedByteAt_in e)
next
  assume e: "f = ''Instruction data size''"
  show "getMemoryValue st index
      = hex2 (littleEndianByte (instructionDataSize st) (nat (int index - getRegionOffset st f)))"
    using getMemoryValue_instruction[OF assms(1) assms(2)[unfolded e], of index] assms(3,4)
    by (simp add: encodedByteAt_in e)
next
  fix k assume "1 \<le> k \<and> k < 2 ^ 53 \<and> f = unitRegionName k ''Account data size''"
  then have k: "k \<noteq> 0" and small: "k < 2 ^ 53"
    and e: "f = unitRegionName k ''Account data size''" by simp_all
  show "getMemoryValue st index
      = hex2 (littleEndianByte (orDefault32 (sizeAt (accountDataSizes st) (k - 1)))
                (nat (int index - getRegionOffset st f)))"
    using getMemoryValue_account[OF assms(1) assms(2)[unfolded e] small, of index] assms(3,4) k
    by (simp add: encodedByteAt_in e)
next
  fix k v
  assume a: "1 \<le> k \<and> k < 2 ^ 53 \<and> f = unitRegionName k ''Account data size''
            \<and> sizeAt (accountDataSizes st) (k - 1) = Some v \<and> v \<noteq> 0
            \<and> int index = getRegionOffset st f"
  then have k: "k \<noteq> 0" and small: "k < 2 ^ 53"
    and e: "f = unitRegionName k ''Account data size''" by simp_all
  from a have "orDefault32 (sizeAt (accountDataSizes st) (k - 1)) = v"
    by (simp add: orDefault32_def)
  then show "getMemoryValue st index = hex2 (nat (v mod 256))"
    using getMemoryValue_account[OF assms(1) assms(2)[unfolded e] small, of index] assms(3,4) k a
    by (simp add: encodedByteAt_in e littleEndianByte_0)
qed

theorem C4_focused_size_fields_witness:
  "getMemoryValue (initialState\<lparr>focusedRegion := Some ''Account 1: Account data size'',
       accountDataSizes := [Some 300]\<rparr>) 88 = ''2c''
   \<and> getRegionOffset (initialState\<lparr>focusedRegion := Some ''Account 1: Account data size'',
       accountDataSizes := [Some 300]\<rparr>) ''Account 1: Account data size'' = 88
   \<and> nat (300 mod 256) = 44"
proof -
  let ?st = "initialState\<lparr>focusedRegion := Some ''Account 1: Account data size'',
       accountDataSizes := [Some 300]\<rparr>"
  let ?f = "''Account 1: Account data size''"
  have s: "section_name (selectedSection ?st) = ''Program input parameters''"
    by (simp add: initialState_def MEMORY_SECTIONS_def)
  have f: "focusedRegion ?st = Some ?f" by simp
  have off: "getRegionOffset ?st ?f = 88"
    by (simp add: getRegionOffset_def layout_eval)
  have lo: "getRegionOffset ?st ?f \<le> int 88" and hi: "int 88 < getRegionOffset ?st ?f + 8"
    by (simp_all add: off)
  have u: "?f = unitRegionName (Suc 0) ''Account data size''"
    by (simp add: unitRegionName_1)
  note T = C4_focused_size_fields[OF s f lo hi, THEN conjunct2, THEN conjunct2, THEN conjunct2,
      rule_format, of "Suc 0" 300]
  have "getMemoryValue ?st 88 = hex2 (nat (300 mod 256))"
    by (rule T) (simp add: u[symmetric] off sizeAt_def at_index_def)
  then show ?thesis by (simp add: off hex2_eval)
qed

text \<open>
  Claim C4 as stated fails where the stored size of the focused account is 0
  (what entering \<^verbatim>\<open>0\<close> stores): the first byte of the field shows \<open>20\<close>, the
  low-order byte of 32, and not \<open>00\<close>, the low-order byte of the stored size.
\<close>

theorem C4_counterexample:
  "handleAccountDataSizeChange ''0'' 0
      (initialState\<lparr>focusedRegion := Some ''Account 1: Account data size''\<rparr>)
     = Stored (initialState\<lparr>focusedRegion := Some ''Account 1: Account data size'',
                accountDataSizes := [Some 0]\<rparr>)
   \<and> sizeAt (accountDataSizes (initialState\<lparr>focusedRegion := Some ''Account 1: Account data size'',
        accountDataSizes := [Some 0]\<rparr>)) 0 = Some 0
   \<and> getRegionOffset (initialState\<lparr>focusedRegion := Some ''Account 1: Account data size'',
        accountDataSizes := [Some 0]\<rparr>) ''Account 1: Account data size'' = 88
   \<and> getMemoryValue (initialState\<lparr>focusedRegion := Some ''Account 1: Account data size'',
        accountDataSizes := [Some 0]\<rparr>) 88 = ''20''
   \<and> hex2 (littleEndianByte 0 0) = ''00''
   \<and> getMemoryValue (initialState\<lparr>focusedRegion := Some ''Account 1: Account data size'',
        accountDataSizes := [Some 0]\<rparr>) 88 \<noteq> hex2 (littleEndianByte 0 0)"
proof -
  let ?st = "initialState\<lparr>focusedRegion := Some ''Account 1: Account data size'',
      accountDataSizes := [Some 0]\<rparr>"
  have st: "handleAccountDataSizeChange ''0'' 0
      (initialState\<lparr>focusedRegion := Some ''Account 1: Account data size''\<rparr>) = Stored ?st"
    by (simp add: handleAccountDataSizeChange_def parseInt_examples arraySet_def initialState_def)
  have s: "section_name (selectedSection ?st) = ''Program input parameters''"
    by (simp add: initialState_def MEMORY_SECTIONS_def)
  have f: "focusedRegion ?st = Some (unitRegionName (Suc 0) ''Account data size'')"
    by (simp add: unitRegionName_1)
  have k: "Suc 0 < 2 ^ 53" by simp
  have off: "getRegionOffset ?st ''Account 1: Account data size'' = 88"
    by (simp add: getRegionOffset_def layout_eval)
  have z: "sizeAt (accountDataSizes ?st) 0 = Some 0"
    by (simp add: sizeAt_def at_index_def)
  have "getMemoryValue ?st 88 = hex2 (littleEndianByte 32 0)"
    using getMemoryValue_account[OF s f k, of 88] off z
    by (simp add: unitRegionName_1 encodedByteAt_in orDefault32_def)
  then have val: "getMemoryValue ?st 88 = ''20''"
    by (simp add: littleEndianByte_0 hex2_eval)
  have zero: "hex2 (littleEndianByte 0 0) = ''00''"
    by (simp add: littleEndianByte_0 hex2_eval)
  from st z off val zero show ?thesis by simp
qed

subsection \<open>The default account data size\<close>

lemma nth_programInputRegions_tail:
  "j < 3 \<Longrightarrow>
   programInputRegions st ! (Suc (8 * numberOfAccounts st) + j) =
     map (\<lambda>region. if name region = ''Instruction data''
                    then region\<lparr>size_bytes := instructionDataSize st\<rparr> else region)
       (drop 1 PROGRAM_REGIONS) ! j"
  by (simp add: programInputRegions_def nth_append length_accountRegions PROGRAM_REGIONS_def)

lemma instruction_data_region:
  "name (programInputRegions st ! (8 * numberOfAccounts st + 2)) = ''Instruction data''
   \<and> size_bytes (programInputRegions st ! (8 * numberOfAccounts st + 2)) = instructionDataSize st"
  using nth_programInputRegions_tail[of 1 st]
  by (simp add: PROGRAM_REGIONS_def)

text \<open>
  Claim C10. For an account \<open>i\<close> (from 0) of the layout whose stored data size
  is 0 or missing (a hole, or no entry at index \<open>i\<close>), the region
  "Account \<open>i + 1\<close>: Account data" of the expansion has size 32, and with
  "Account \<open>i + 1\<close>: Account data size" focused the eight bytes of that field
  show the encoding of 32, whose first byte is 32 and not 0. Entering \<^verbatim>\<open>0\<close> or
  nothing as an account data size stores 0. An instruction data size of 0 is
  used as it is: the region "Instruction data" then has size 0.
\<close>

theorem C10_default_size:
  "(\<forall>i < numberOfAccounts st.
      sizeAt (accountDataSizes st) i = None \<or> sizeAt (accountDataSizes st) i = Some 0 \<longrightarrow>
        name (programInputRegions st ! (1 + 8 * i + 5)) = unitRegionName (i + 1) ''Account data''
        \<and> size_bytes (programInputRegions st ! (1 + 8 * i + 5)) = 32
        \<and> (\<forall>index.
              section_name (selectedSection st) = ''Program input parameters''
              \<and> i + 1 < 2 ^ 53
              \<and> focusedRegion st = Some (unitRegionName (i + 1) ''Account data size'')
              \<and> getRegionOffset st (unitRegionName (i + 1) ''Account data size'') \<le> int index
              \<and> int index < getRegionOffset st (unitRegionName (i + 1) ''Account data size'') + 8
              \<longrightarrow> getMemoryValue st index
                    = hex2 (littleEndianByte 32
                        (nat (int index - getRegionOffset st (unitRegionName (i + 1) ''Account data size''))))))
   \<and> littleEndianByte 32 0 = 32 \<and> littleEndianByte 0 0 = 0
   \<and> (\<forall>i. length (accountDataSizes st) \<le> i \<longrightarrow> sizeAt (accountDataSizes st) i = None)
   \<and> (\<forall>i. handleAccountDataSizeChange ''0'' i st
            = Stored (st\<lparr>accountDataSizes := arraySet (accountDataSizes st) i 0\<rparr>)
          \<and> handleAccountDataSizeChange '''' i st
            = Stored (st\<lparr>accountDataSizes := arraySet (accountDataSizes st) i 0\<rparr>)
          \<and> sizeAt (arraySet (accountDataSizes st) i 0) i = Some 0)
   \<and> (instructionDataSize st = 0 \<longrightarrow>
        name (programInputRegions st ! (8 * numberOfAccounts st + 2)) = ''Instruction data''
        \<and> size_bytes (programInputRegions st ! (8 * numberOfAccounts st + 2)) = 0)"
proof (intro conjI allI impI)
  fix i assume i: "i < numberOfAccounts st"
    and z: "sizeAt (accountDataSizes st) i = None \<or> sizeAt (accountDataSizes st) i = Some 0"
  from z have d: "orDefault32 (sizeAt (accountDataSizes st) i) = 32"
    by (auto simp: orDefault32_def)
  show "name (programInputRegions st ! (1 + 8 * i + 5)) = unitRegionName (i + 1) ''Account data''"
    using nth_programInputRegions_account[OF i, of 5]
    by (simp add: name_instantiateAccount_nth accountBaseNames_def)
  show "size_bytes (programInputRegions st ! (1 + 8 * i + 5)) = 32"
    using nth_programInputRegions_account[OF i, of 5] d
    by (simp add: size_instantiateAccount_nth)
  fix index
  assume a: "section_name (selectedSection st) = ''Program input parameters''
              \<and> i + 1 < 2 ^ 53
              \<and> focusedRegion st = Some (unitRegionName (i + 1) ''Account data size'')
              \<and> getRegionOffset st (unitRegionName (i + 1) ''Account data size'') \<le> int index
              \<and> int index < getRegionOffset st (unitRegionName (i + 1) ''Account data size'') + 8"
  then have s: "section_name (selectedSection st) = ''Program input parameters''"
    and f: "focusedRegion st = Some (unitRegionName (i + 1) ''Account data size'')"
    and small: "i + 1 < 2 ^ 53"
    by simp_all
  show "getMemoryValue st index
      = hex2 (littleEndianByte 32
          (nat (int index - getRegionOffset st (unitRegionName (i + 1) ''Account data size''))))"
    using getMemoryValue_account[OF s f small, of index] a d
    by (simp add: encodedByteAt_in)
next
  show "littleEndianByte 32 0 = 32" "littleEndianByte 0 0 = 0"
    by (simp_all add: littleEndianByte_0)
next
  fix i assume "length (accountDataSizes st) \<le> i"
  then show "sizeAt (accountDataSizes st) i = None"
    by (simp add: sizeAt_def at_index_def)
next
  fix i
  show "handleAccountDataSizeChange ''0'' i st
            = Stored (st\<lparr>accountDataSizes := arraySet (accountDataSizes st) i 0\<rparr>)"
    "handleAccountDataSizeChange '''' i st
            = Stored (st\<lparr>accountDataSizes := arraySet (accountDataSizes st) i 0\<rparr>)"
    "sizeAt (arraySet (accountDataSizes st) i 0) i = Some 0"
    by (simp_all add: handleAccountDataSizeChange_def parseInt_examples sizeAt_arraySet)
next
  assume "instructionDataSize st = 0"
  then show "name (programInputRegions st ! (8 * numberOfAccounts st + 2)) = ''Instruction data''"
    "size_bytes (programInputRegions st ! (8 * numberOfAccounts st + 2)) = 0"
    using instruction_data_region[of st] by simp_all
qed

theorem C10_default_size_witness:
  "size_bytes (programInputRegions (initialState\<lparr>accountDataSizes := [Some 0],
       instructionDataSize := 0, focusedRegion := Some ''Account 1: Account data size''\<rparr>) ! 6) = 32
   \<and> name (programInputRegions (initialState\<lparr>accountDataSizes := [Some 0],
       instructionDataSize := 0, focusedRegion := Some ''Account 1: Account data size''\<rparr>) ! 6)
       = ''Account 1: Account data''
   \<and> getMemoryValue (initialState\<lparr>accountDataSizes := [Some 0],
       instructionDataSize := 0, focusedRegion := Some ''Account 1: Account data size''\<rparr>) 88 = ''20''
   \<and> size_bytes (programInputRegions (initialState\<lparr>accountDataSizes := [Some 0],
       instructionDataSize := 0, focusedRegion := Some ''Account 1: Account data size''\<rparr>) ! 10) = 0
   \<and> size_bytes (programInputRegions (initialState\<lparr>accountDataSizes := []\<rparr>) ! 6) = 32"
proof -
  let ?st = "initialState\<lparr>accountDataSizes := [Some 0],
       instructionDataSize := 0, focusedRegion := Some ''Account 1: Account data size''\<rparr>"
  let ?e = "initialState\<lparr>accountDataSizes := []\<rparr>"
  note T = C10_default_size[of ?st]
  note E = C10_default_size[of ?e]
  have n: "0 < numberOfAccounts ?st" "0 < numberOfAccounts ?e" "numberOfAccounts ?st = 1"
    by (simp_all add: initialState_def)
  have z: "sizeAt (accountDataSizes ?st) 0 = None \<or> sizeAt (accountDataSizes ?st) 0 = Some 0"
    "sizeAt (accountDataSizes ?e) 0 = None \<or> sizeAt (accountDataSizes ?e) 0 = Some 0"
    by (simp_all add: sizeAt_def at_index_def)
  note A = T[THEN conjunct1, rule_format, OF n(1) z(1)]
  note B = E[THEN conjunct1, rule_format, OF n(2) z(2)]
  have off: "getRegionOffset ?st ''Account 1: Account data size'' = 88"
    by (simp add: getRegionOffset_def layout_eval)
  have u: "unitRegionName (0 + 1) ''Account data size'' = ''Account 1: Account data size''"
    by (simp add: unitRegionName_1)
  have hyp: "section_name (selectedSection ?st) = ''Program input parameters''
      \<and> (0 :: nat) + 1 < 2 ^ 53
      \<and> focusedRegion ?st = Some (unitRegionName (0 + 1) ''Account data size'')
      \<and> getRegionOffset ?st (unitRegionName (0 + 1) ''Account data size'') \<le> int 88
      \<and> int 88 < getRegionOffset ?st (unitRegionName (0 + 1) ''Account data size'') + 8"
    unfolding u off by (simp add: initialState_def MEMORY_SECTIONS_def)
  have "getMemoryValue ?st 88
      = hex2 (littleEndianByte 32
          (nat (int 88 - getRegionOffset ?st (unitRegionName (0 + 1) ''Account data size''))))"
    using hyp by (rule A[THEN conjunct2, THEN conjunct2, rule_format])
  then have v: "getMemoryValue ?st 88 = ''20''"
    unfolding u off by (simp add: littleEndianByte_0 hex2_eval)
  have i: "instructionDataSize ?st = 0" by simp
  have t: "size_bytes (programInputRegions ?st ! (8 * numberOfAccounts ?st + 2)) = 0"
    using T i by blast
  from A B v t show ?thesis by (simp add: unitRegionName_1 n(3))
qed

subsection \<open>The colour of a cell\<close>

text \<open>
  Claim C6, evaluated where the code departs from it. With two accounts and
  "Account 1: Account data size" focused, a byte of "Account 2: Account data"
  (the data field of another account) is shown in that region's colour at
  reduced emphasis, where the claim gives the dimmed tag of rule (4); and a
  byte of the focused region itself is shown at reduced emphasis, where the
  claim gives the region's own colour by rule (3). The test of rule (1) in
  the source is a substring test on both names.
\<close>

theorem C6_failing_input:
  "map_option name (getRegionForOffset
      ((handleNumberOfAccountsChange ''2'' initialState)
         \<lparr>focusedRegion := Some ''Account 1: Account data size''\<rparr>) 10472)
     = Some ''Account 2: Account data''
   \<and> getRegionColor
      ((handleNumberOfAccountsChange ''2'' initialState)
         \<lparr>focusedRegion := Some ''Account 1: Account data size''\<rparr>) 10472
     = ''bg-pink-400 opacity-50''
   \<and> map_option name (getRegionForOffset
      ((handleNumberOfAccountsChange ''2'' initialState)
         \<lparr>focusedRegion := Some ''Account 1: Account data size''\<rparr>) 88)
     = Some ''Account 1: Account data size''
   \<and> getRegionColor
      ((handleNumberOfAccountsChange ''2'' initialState)
         \<lparr>focusedRegion := Some ''Account 1: Account data size''\<rparr>) 88
     = ''bg-indigo-400 opacity-50''
   \<and> getRegionColor
      ((handleNumberOfAccountsChange ''2'' initialState)
         \<lparr>focusedRegion := Some ''Account 1: Account data size''\<rparr>) 96
     = ''bg-pink-400 opacity-50''
   \<and> getRegionColor
      ((handleNumberOfAccountsChange ''2'' initialState)
         \<lparr>focusedRegion := Some ''Account 1: Account data size''\<rparr>) 80
     = ''bg-gray-700''"
proof -
  have st: "(handleNumberOfAccountsChange ''2'' initialState)
         \<lparr>focusedRegion := Some ''Account 1: Account data size''\<rparr>
      = initialState\<lparr>numberOfAccounts := 2, accountDataSizes := [Some 32, Some 32],
          focusedRegion := Some ''Account 1: Account data size''\<rparr>"
    by (simp add: handleNumberOfAccountsChange_def Let_def parseInt_examples pushDefaults_eq
        initialState_def)
  show ?thesis
    unfolding st
    by (simp add: getRegionColor_def getRegionForOffset_def colorInRegion_def layout_eval upt_rec)
qed

end
